theory Spec2Isabelle
  imports Complex_Main
begin

section \<open>Python values used by the training harness\<close>

text \<open>
  Losses are Python floats. They are modelled as reals extended by the three special
  values a float can take: \<open>float('inf')\<close> (the initial best loss), its negation and
  NaN (what PyTorch returns for a mean over no elements). Rounding is not modelled.
  Comparisons follow IEEE 754: every comparison with NaN is false.
\<close>

datatype pyfloat = Fin real | PInf | NInf | NaN

fun flt_lt :: "pyfloat \<Rightarrow> pyfloat \<Rightarrow> bool" where
  "flt_lt (Fin a) (Fin b) = (a < b)"
| "flt_lt (Fin a) PInf = True"
| "flt_lt NInf (Fin b) = True"
| "flt_lt NInf PInf = True"
| "flt_lt _ _ = False"

fun flt_le :: "pyfloat \<Rightarrow> pyfloat \<Rightarrow> bool" where
  "flt_le (Fin a) (Fin b) = (a \<le> b)"
| "flt_le (Fin a) PInf = True"
| "flt_le NInf (Fin b) = True"
| "flt_le NInf PInf = True"
| "flt_le NInf NInf = True"
| "flt_le PInf PInf = True"
| "flt_le _ _ = False"

fun flt_add :: "pyfloat \<Rightarrow> pyfloat \<Rightarrow> pyfloat" where
  "flt_add (Fin a) (Fin b) = Fin (a + b)"
| "flt_add NaN _ = NaN"
| "flt_add _ NaN = NaN"
| "flt_add PInf NInf = NaN"
| "flt_add NInf PInf = NaN"
| "flt_add PInf _ = PInf"
| "flt_add _ PInf = PInf"
| "flt_add NInf _ = NInf"
| "flt_add _ NInf = NInf"

datatype py_error = ZeroDivisionError | ValueError | IndexError | FileNotFoundError

text \<open>\<open>x / n\<close> for a float (or the int 0) \<open>x\<close> and a length \<open>n\<close>: Python raises on \<open>n = 0\<close>.\<close>

fun flt_div_len :: "pyfloat \<Rightarrow> nat \<Rightarrow> py_error + pyfloat" where
  "flt_div_len x 0 = Inl ZeroDivisionError"
| "flt_div_len (Fin a) n = Inr (Fin (a / real n))"
| "flt_div_len x n = Inr x"

section \<open>The loss criterion\<close>

text \<open>
  \<open>nn.CrossEntropyLoss(ignore_index = pad, reduction = r)\<close> is library code. It is
  modelled after its documentation: on scores of shape \<open>[N, C]\<close> and targets of shape
  \<open>[N]\<close>, position \<open>n\<close> contributes \<open>- log (softmax x\<^sub>n) ! y\<^sub>n\<close> unless \<open>y\<^sub>n\<close> is the
  ignored index; \<open>sum\<close> adds the contributions, \<open>mean\<close> (the default) divides their sum
  by the number of positions that are not ignored, which gives NaN (0/0 on floats, no
  exception) when there are none. A target outside \<open>0..<C\<close> and a length mismatch raise.
\<close>

datatype reduction = Mean | Sum

definition nll :: "real list \<Rightarrow> nat \<Rightarrow> real" where
  "nll xs t = ln (\<Sum>x\<leftarrow>xs. exp x) - xs ! t"

fun ce_terms :: "nat \<Rightarrow> real list list \<Rightarrow> nat list \<Rightarrow> py_error + real list" where
  "ce_terms pad [] [] = Inr []"
| "ce_terms pad (xs # rows) (t # ts) =
     (if t = pad then ce_terms pad rows ts
      else if length xs \<le> t then Inl IndexError
      else (case ce_terms pad rows ts of
              Inl e \<Rightarrow> Inl e
            | Inr ls \<Rightarrow> Inr (nll xs t # ls)))"
| "ce_terms pad _ _ = Inl ValueError"

type_synonym criterion = "real list list \<Rightarrow> nat list \<Rightarrow> py_error + pyfloat"

definition CrossEntropyLoss :: "nat \<Rightarrow> reduction \<Rightarrow> criterion" where
  "CrossEntropyLoss ignore_index red rows tgts =
     (case ce_terms ignore_index rows tgts of
        Inl e \<Rightarrow> Inl e
      | Inr ls \<Rightarrow>
          Inr (case red of
                 Sum \<Rightarrow> Fin (sum_list ls)
               | Mean \<Rightarrow> if ls = [] then NaN else Fin (sum_list ls / real (length ls))))"

section \<open>The torch objects both programs drive\<close>

text \<open>
  The model's parameters, their accumulated gradients, the optimizer's own state and the
  module's train/eval flag. The network, autograd, gradient clipping and Adam are
  library or absent code: they are parameters of the model, typed so that each can only
  touch what the call in the source can touch.
\<close>

record ('p, 'g, 'o) torch_world =
  params :: 'p
  grads :: 'g
  opt_state :: 'o
  training :: bool

datatype event =
    EvMetadata
  | EvEpoch nat
  | EvForward
  | EvLoss
  | EvZeroGrad
  | EvBackward
  | EvClip
  | EvStep
  | EvValForward
  | EvValLoss
  | EvSave nat
  | EvStop nat

datatype step = Next | Break | Raise py_error

datatype outcome = Exhausted | EarlyStopped | Raised py_error

section \<open>train.py: the script's training loop\<close>

text \<open>A batch of train.py: \<open>batch.src\<close> and \<open>batch.trg\<close> are (padded ids, lengths) pairs.\<close>

record batch =
  src_seq :: "nat list list"
  src_len :: "nat list"
  trg_seq :: "nat list list"
  trg_len :: "nat list"

type_synonym logits = "real list list list"

text \<open>
  What train.py calls and does not define: the model of module model2lstm (its two
  forward modes and its \<open>loss\<close> method), \<open>loss.backward()\<close>, \<open>clip_grad_norm_\<close> and the
  optimizer. Randomness inside them (dropout, sampling) is resolved by the parameter.
\<close>

record ('p, 'g, 'o) main_deps =
  forward_train :: "bool \<Rightarrow> 'p \<Rightarrow> batch \<Rightarrow> logits"
  forward_infer :: "bool \<Rightarrow> 'p \<Rightarrow> batch \<Rightarrow> nat \<Rightarrow> int \<Rightarrow> nat list list \<times> logits"
  model_loss :: "logits \<Rightarrow> nat list list \<Rightarrow> criterion \<Rightarrow> py_error + pyfloat"
  zero_grad :: "'g \<Rightarrow> 'g"
  backward :: "bool \<Rightarrow> 'p \<Rightarrow> batch \<Rightarrow> 'g \<Rightarrow> 'g"
  clip_grad_norm :: "real \<Rightarrow> 'g \<Rightarrow> 'g"
  opt_step :: "'o \<Rightarrow> 'p \<Rightarrow> 'g \<Rightarrow> 'o \<times> 'p"

text \<open>
  The command line and what the data loader returned. An iterator yields a fresh list
  of batches each time it is iterated, so it is a function of the epoch.
\<close>

record main_args =
  n_epochs :: int
  args_patience :: int
  grad_clip :: real
  target_pad_idx :: nat
  target_sos_idx :: nat
  train_iterator :: "nat \<Rightarrow> batch list"
  val_iterator :: "nat \<Rightarrow> batch list"

text \<open>One record per epoch that reached the checkpoint decision (lines 153-162).\<close>

record epoch_rec =
  rec_epoch :: nat
  rec_val_loss :: pyfloat
  rec_saved :: bool
  rec_patience :: int
  rec_best :: pyfloat

record ('p, 'g, 'o) main_state =
  model :: "('p, 'g, 'o) torch_world"
  best_val_loss :: pyfloat
  patience :: int
  model_pkl :: "'p option"
  history :: "epoch_rec list"
  trace :: "event list"

text \<open>Lines 113-119: one training step. The loss is computed before the gradients are cleared.\<close>

definition train_step ::
  "('p, 'g, 'o) main_deps \<Rightarrow> main_args \<Rightarrow> batch \<Rightarrow> ('p, 'g, 'o) main_state
     \<Rightarrow> (py_error + pyfloat) \<times> ('p, 'g, 'o) main_state" where
  "train_step X A b st =
     (let w = model st;
          logits_seq = forward_train X (training w) (params w) b
      in case model_loss X logits_seq (trg_seq b) (CrossEntropyLoss (target_pad_idx A) Sum) of
           Inl e \<Rightarrow> (Inl e, st\<lparr>trace := trace st @ [EvForward]\<rparr>)
         | Inr loss \<Rightarrow>
             (let g1 = zero_grad X (grads w);
                  g2 = backward X (training w) (params w) b g1;
                  g3 = clip_grad_norm X (grad_clip A) g2;
                  (os, ps) = opt_step X (opt_state w) (params w) g3
              in (Inr loss,
                  st\<lparr>model := w\<lparr>params := ps, grads := g3, opt_state := os\<rparr>,
                     trace := trace st @ [EvForward, EvLoss, EvZeroGrad, EvBackward, EvClip, EvStep]\<rparr>)))"

text \<open>
  Lines 109-126: the batch loop, with its running statistics
  \<open>(acc_loss, total_toks, total_seqs)\<close>. The two averages divide by the counts.
\<close>

fun train_batches ::
  "('p, 'g, 'o) main_deps \<Rightarrow> main_args \<Rightarrow> batch list \<Rightarrow> pyfloat \<times> nat \<times> nat
     \<Rightarrow> ('p, 'g, 'o) main_state \<Rightarrow> (py_error + pyfloat \<times> nat \<times> nat) \<times> ('p, 'g, 'o) main_state" where
  "train_batches X A [] acc st = (Inr acc, st)"
| "train_batches X A (b # bs) (acc_loss, total_toks, total_seqs) st =
     (case train_step X A b st of
        (Inl e, st') \<Rightarrow> (Inl e, st')
      | (Inr loss, st') \<Rightarrow>
          (let toks = total_toks + sum_list (trg_len b);
               seqs = total_seqs + length (trg_len b);
               acc = flt_add acc_loss loss
           in if toks = 0 \<or> seqs = 0 then (Inl ZeroDivisionError, st')
              else train_batches X A bs (acc, toks, seqs) st'))"

text \<open>Lines 133-150: the validation loop, under \<open>torch.no_grad()\<close>.\<close>

fun val_batches ::
  "('p, 'g, 'o) main_deps \<Rightarrow> main_args \<Rightarrow> batch list \<Rightarrow> pyfloat \<times> nat \<times> nat
     \<Rightarrow> ('p, 'g, 'o) main_state \<Rightarrow> (py_error + pyfloat \<times> nat \<times> nat) \<times> ('p, 'g, 'o) main_state" where
  "val_batches X A [] acc st = (Inr acc, st)"
| "val_batches X A (b # bs) (val_loss, total_toks, total_seqs) st =
     (let w = model st;
          (outputs, logits_seq) =
             forward_infer X (training w) (params w) b (target_sos_idx A)
               (int (length (trg_seq b)) - 1)
      in case model_loss X logits_seq (trg_seq b) (CrossEntropyLoss (target_pad_idx A) Sum) of
           Inl e \<Rightarrow> (Inl e, st\<lparr>trace := trace st @ [EvValForward]\<rparr>)
         | Inr loss \<Rightarrow>
             val_batches X A bs
               (flt_add val_loss loss, total_toks + sum_list (trg_len b),
                total_seqs + length (trg_len b))
               (st\<lparr>trace := trace st @ [EvValForward, EvValLoss]\<rparr>))"

text \<open>Lines 153-162: the checkpoint decision and the early-stopping test.\<close>

definition checkpoint_policy ::
  "main_args \<Rightarrow> nat \<Rightarrow> pyfloat \<Rightarrow> ('p, 'g, 'o) main_state \<Rightarrow> step \<times> ('p, 'g, 'o) main_state" where
  "checkpoint_policy A epoch val_loss st =
     (if flt_le val_loss (best_val_loss st) then
        (Next,
         st\<lparr>best_val_loss := val_loss,
            model_pkl := Some (params (model st)),
            history := history st @
              [\<lparr>rec_epoch = epoch, rec_val_loss = val_loss, rec_saved = True,
                rec_patience = patience st, rec_best = val_loss\<rparr>],
            trace := trace st @ [EvSave epoch]\<rparr>)
      else
        (let p = patience st + 1;
             st' = st\<lparr>patience := p,
                      history := history st @
                        [\<lparr>rec_epoch = epoch, rec_val_loss = val_loss, rec_saved = False,
                          rec_patience = p, rec_best = best_val_loss st\<rparr>]\<rparr>
         in if args_patience A \<le> p then (Break, st'\<lparr>trace := trace st' @ [EvStop epoch]\<rparr>)
            else (Next, st')))"

text \<open>
  Lines 106-175: one epoch. \<open>random.randint(1, len(val_iterator))\<close> raises on an empty
  iterator; the report after the decision divides by the validation counts. A
  \<open>break\<close> skips the report.
\<close>

definition epoch_body ::
  "('p, 'g, 'o) main_deps \<Rightarrow> main_args \<Rightarrow> nat \<Rightarrow> ('p, 'g, 'o) main_state
     \<Rightarrow> step \<times> ('p, 'g, 'o) main_state" where
  "epoch_body X A epoch st =
     (let st1 = st\<lparr>model := (model st)\<lparr>training := True\<rparr>, trace := trace st @ [EvEpoch epoch]\<rparr>
      in case train_batches X A (train_iterator A epoch) (Fin 0, 0, 0) st1 of
           (Inl e, st2) \<Rightarrow> (Raise e, st2)
         | (Inr _, st2) \<Rightarrow>
             (let st3 = st2\<lparr>model := (model st2)\<lparr>training := False\<rparr>\<rparr>
              in if val_iterator A epoch = [] then (Raise ValueError, st3)
                 else (case val_batches X A (val_iterator A epoch) (Fin 0, 0, 0) st3 of
                         (Inl e, st4) \<Rightarrow> (Raise e, st4)
                       | (Inr (val_loss, total_toks, total_seqs), st4) \<Rightarrow>
                           (case checkpoint_policy A epoch val_loss st4 of
                              (Next, st5) \<Rightarrow>
                                if total_toks = 0 \<or> total_seqs = 0
                                then (Raise ZeroDivisionError, st5) else (Next, st5)
                            | r \<Rightarrow> r))))"

text \<open>Line 105: \<open>for epoch in range(1, args.n_epochs+1)\<close>.\<close>

fun epoch_loop ::
  "('p, 'g, 'o) main_deps \<Rightarrow> main_args \<Rightarrow> nat list \<Rightarrow> ('p, 'g, 'o) main_state
     \<Rightarrow> outcome \<times> ('p, 'g, 'o) main_state" where
  "epoch_loop X A [] st = (Exhausted, st)"
| "epoch_loop X A (e # es) st =
     (case epoch_body X A e st of
        (Next, st') \<Rightarrow> epoch_loop X A es st'
      | (Break, st') \<Rightarrow> (EarlyStopped, st')
      | (Raise err, st') \<Rightarrow> (Raised err, st'))"

text \<open>Lines 102-103: the state the loop starts from, for the freshly built model \<open>w\<close>.\<close>

definition main_init :: "('p, 'g, 'o) torch_world \<Rightarrow> ('p, 'g, 'o) main_state" where
  "main_init w =
     \<lparr>model = w, best_val_loss = PInf, patience = 0, model_pkl = None, history = [], trace = []\<rparr>"

definition main_run ::
  "('p, 'g, 'o) main_deps \<Rightarrow> main_args \<Rightarrow> ('p, 'g, 'o) torch_world
     \<Rightarrow> outcome \<times> ('p, 'g, 'o) main_state" where
  "main_run X A w = epoch_loop X A [1 ..< nat (n_epochs A + 1)] (main_init w)"

section \<open>solver.py: the Solver class\<close>

text \<open>A torchtext batch of the Solver: \<open>batch.src\<close> and \<open>batch.trg\<close>, both \<open>[len, batch_size]\<close>.\<close>

record sbatch =
  b_src :: "nat list list"
  b_trg :: "nat list list"

text \<open>A torchtext field with its vocabulary; \<open>stoi\<close> is a defaultdict, so it is total.\<close>

record field =
  vocab_itos :: "string list"
  vocab_stoi :: "string \<Rightarrow> nat"
  pad_token :: string

record model_dict =
  input_dim :: nat
  output_dim :: nat
  source_vocab :: field
  target_vocab :: field

text \<open>
  What the Solver calls and does not define: the network built by
  \<open>lstm2lstm_baseline\<close> (its forward pass and its \<open>translate\<close> method), autograd,
  \<open>clip_grad_norm_\<close> and Adam.
\<close>

record ('p, 'g, 'o) solver_deps =
  s_forward :: "bool \<Rightarrow> 'p \<Rightarrow> nat list list \<Rightarrow> nat list list \<Rightarrow> logits"
  s_translate :: "'p \<Rightarrow> nat list list \<Rightarrow> nat \<Rightarrow> nat list list"
  s_zero_grad :: "'g \<Rightarrow> 'g"
  s_backward :: "bool \<Rightarrow> 'p \<Rightarrow> sbatch \<Rightarrow> 'g \<Rightarrow> 'g"
  s_clip_grad_norm :: "real \<Rightarrow> 'g \<Rightarrow> 'g"
  s_opt_step :: "'o \<Rightarrow> 'p \<Rightarrow> 'g \<Rightarrow> 'o \<times> 'p"

record solver_args =
  s_n_epochs :: int
  clip :: real

text \<open>What \<open>train_data_loader\<close> returns.\<close>

record loaded =
  ld_src :: field
  ld_trg :: field
  ld_train_iterator :: "nat \<Rightarrow> sbatch list"
  ld_val_iterator :: "nat \<Rightarrow> sbatch list"

record solver_rec =
  sr_epoch :: nat
  sr_val_loss :: pyfloat
  sr_saved :: bool
  sr_best :: pyfloat
  sr_best_epoch :: nat

text \<open>
  The Solver object with the two files of its checkpoint directory and the two locals
  of \<open>train\<close>.
\<close>

record ('p, 'g, 'o) solver =
  s_model :: "('p, 'g, 'o) torch_world"
  s_criterion :: criterion
  s_train_iterator :: "nat \<Rightarrow> sbatch list"
  s_val_iterator :: "nat \<Rightarrow> sbatch list"
  model_dict_pkl :: "model_dict option"
  model_pth :: "'p option"
  s_best_val_loss :: pyfloat
  best_val_loss_epoch :: nat
  s_history :: "solver_rec list"
  s_trace :: "event list"

text \<open>
  Lines 33-79: \<open>init_training\<close>, for the loaded data \<open>d\<close> and the freshly built model
  and optimizer \<open>w\<close>. The criterion keeps the default \<open>mean\<close> reduction.
\<close>

definition init_training :: "loaded \<Rightarrow> ('p, 'g, 'o) torch_world \<Rightarrow> ('p, 'g, 'o) solver" where
  "init_training d w =
     (let src = ld_src d; trg = ld_trg d;
          input_dim = length (vocab_itos src); output_dim = length (vocab_itos trg);
          trg_pad_idx = vocab_stoi trg (pad_token trg)
      in \<lparr>s_model = w,
          s_criterion = CrossEntropyLoss trg_pad_idx Mean,
          s_train_iterator = ld_train_iterator d,
          s_val_iterator = ld_val_iterator d,
          model_dict_pkl = Some \<lparr>input_dim = input_dim, output_dim = output_dim,
                                 source_vocab = src, target_vocab = trg\<rparr>,
          model_pth = None,
          s_best_val_loss = PInf,
          best_val_loss_epoch = 0,
          s_history = [],
          s_trace = [EvMetadata]\<rparr>)"

text \<open>Lines 111-127: one training step; \<open>output[1:]\<close> and \<open>trg[1:]\<close> are flattened.\<close>

definition s_train_step ::
  "('p, 'g, 'o) solver_deps \<Rightarrow> solver_args \<Rightarrow> sbatch \<Rightarrow> ('p, 'g, 'o) solver
     \<Rightarrow> (py_error + pyfloat) \<times> ('p, 'g, 'o) solver" where
  "s_train_step X A batch st =
     (let w = s_model st;
          src = b_src batch;
          trg = b_trg batch;
          output = s_forward X (training w) (params w) src trg;
          output = concat (drop 1 output);
          trg = concat (drop 1 trg);
          g1 = s_zero_grad X (grads w)
      in case s_criterion st output trg of
           Inl e \<Rightarrow>
             (Inl e, st\<lparr>s_model := w\<lparr>grads := g1\<rparr>,
                        s_trace := s_trace st @ [EvForward, EvZeroGrad]\<rparr>)
         | Inr loss \<Rightarrow>
             (let g2 = s_backward X (training w) (params w) batch g1;
                  g3 = s_clip_grad_norm X (clip A) g2;
                  (os, ps) = s_opt_step X (opt_state w) (params w) g3
              in (Inr loss,
                  st\<lparr>s_model := w\<lparr>params := ps, grads := g3, opt_state := os\<rparr>,
                     s_trace := s_trace st @
                       [EvForward, EvZeroGrad, EvLoss, EvBackward, EvClip, EvStep]\<rparr>)))"

fun s_train_batches ::
  "('p, 'g, 'o) solver_deps \<Rightarrow> solver_args \<Rightarrow> sbatch list \<Rightarrow> pyfloat \<Rightarrow> ('p, 'g, 'o) solver
     \<Rightarrow> (py_error + pyfloat) \<times> ('p, 'g, 'o) solver" where
  "s_train_batches X A [] epoch_loss st = (Inr epoch_loss, st)"
| "s_train_batches X A (b # bs) epoch_loss st =
     (case s_train_step X A b st of
        (Inl e, st') \<Rightarrow> (Inl e, st')
      | (Inr loss, st') \<Rightarrow> s_train_batches X A bs (flt_add epoch_loss loss) st')"

text \<open>Lines 105-137: \<open>train_epoch\<close> over the batches the iterator yields this time.\<close>

definition train_epoch ::
  "('p, 'g, 'o) solver_deps \<Rightarrow> solver_args \<Rightarrow> sbatch list \<Rightarrow> ('p, 'g, 'o) solver
     \<Rightarrow> (py_error + pyfloat) \<times> ('p, 'g, 'o) solver" where
  "train_epoch X A iterator st =
     (case s_train_batches X A iterator (Fin 0)
             (st\<lparr>s_model := (s_model st)\<lparr>training := True\<rparr>\<rparr>) of
        (Inl e, st') \<Rightarrow> (Inl e, st')
      | (Inr epoch_loss, st') \<Rightarrow> (flt_div_len epoch_loss (length iterator), st'))"

text \<open>Lines 143-156: the validation batches, under \<open>torch.no_grad()\<close>.\<close>

fun s_val_batches ::
  "('p, 'g, 'o) solver_deps \<Rightarrow> sbatch list \<Rightarrow> pyfloat \<Rightarrow> ('p, 'g, 'o) solver
     \<Rightarrow> (py_error + pyfloat) \<times> ('p, 'g, 'o) solver" where
  "s_val_batches X [] epoch_loss st = (Inr epoch_loss, st)"
| "s_val_batches X (batch # bs) epoch_loss st =
     (let w = s_model st;
          src = b_src batch;
          trg = b_trg batch;
          output = s_forward X (training w) (params w) src trg;
          output = concat (drop 1 output);
          trg = concat (drop 1 trg)
      in case s_criterion st output trg of
           Inl e \<Rightarrow> (Inl e, st\<lparr>s_trace := s_trace st @ [EvValForward]\<rparr>)
         | Inr loss \<Rightarrow>
             s_val_batches X bs (flt_add epoch_loss loss)
               (st\<lparr>s_trace := s_trace st @ [EvValForward, EvValLoss]\<rparr>))"

text \<open>Lines 139-157: \<open>validate\<close>.\<close>

definition validate ::
  "('p, 'g, 'o) solver_deps \<Rightarrow> sbatch list \<Rightarrow> ('p, 'g, 'o) solver
     \<Rightarrow> (py_error + pyfloat) \<times> ('p, 'g, 'o) solver" where
  "validate X iterator st =
     (case s_val_batches X iterator (Fin 0)
             (st\<lparr>s_model := (s_model st)\<lparr>training := False\<rparr>\<rparr>) of
        (Inl e, st') \<Rightarrow> (Inl e, st')
      | (Inr epoch_loss, st') \<Rightarrow> (flt_div_len epoch_loss (length iterator), st'))"

text \<open>Lines 92-95: the checkpoint decision of \<open>Solver.train\<close>.\<close>

definition s_checkpoint ::
  "nat \<Rightarrow> pyfloat \<Rightarrow> ('p, 'g, 'o) solver \<Rightarrow> ('p, 'g, 'o) solver" where
  "s_checkpoint epoch val_loss st =
     (if flt_lt val_loss (s_best_val_loss st) then
        st\<lparr>s_best_val_loss := val_loss,
           best_val_loss_epoch := epoch,
           model_pth := Some (params (s_model st)),
           s_history := s_history st @
             [\<lparr>sr_epoch = epoch, sr_val_loss = val_loss, sr_saved = True,
               sr_best = val_loss, sr_best_epoch = epoch\<rparr>],
           s_trace := s_trace st @ [EvSave epoch]\<rparr>
      else
        st\<lparr>s_history := s_history st @
             [\<lparr>sr_epoch = epoch, sr_val_loss = val_loss, sr_saved = False,
               sr_best = s_best_val_loss st, sr_best_epoch = best_val_loss_epoch st\<rparr>]\<rparr>)"

text \<open>Lines 87-102: the body of the epoch loop of \<open>Solver.train\<close>.\<close>

definition s_epoch_body ::
  "('p, 'g, 'o) solver_deps \<Rightarrow> solver_args \<Rightarrow> nat \<Rightarrow> ('p, 'g, 'o) solver
     \<Rightarrow> step \<times> ('p, 'g, 'o) solver" where
  "s_epoch_body X A epoch st =
     (case train_epoch X A (s_train_iterator st epoch)
             (st\<lparr>s_trace := s_trace st @ [EvEpoch epoch]\<rparr>) of
        (Inl e, st1) \<Rightarrow> (Raise e, st1)
      | (Inr train_loss, st1) \<Rightarrow>
          (case validate X (s_val_iterator st1 epoch) st1 of
             (Inl e, st2) \<Rightarrow> (Raise e, st2)
           | (Inr val_loss, st2) \<Rightarrow> (Next, s_checkpoint epoch val_loss st2)))"

fun s_epoch_loop ::
  "('p, 'g, 'o) solver_deps \<Rightarrow> solver_args \<Rightarrow> nat list \<Rightarrow> ('p, 'g, 'o) solver
     \<Rightarrow> outcome \<times> ('p, 'g, 'o) solver" where
  "s_epoch_loop X A [] st = (Exhausted, st)"
| "s_epoch_loop X A (e # es) st =
     (case s_epoch_body X A e st of
        (Next, st') \<Rightarrow> s_epoch_loop X A es st'
      | (Break, st') \<Rightarrow> (EarlyStopped, st')
      | (Raise err, st') \<Rightarrow> (Raised err, st'))"

text \<open>Lines 81-102: \<open>train\<close>; \<open>for epoch in range(self.args.n_epochs)\<close>.\<close>

definition train ::
  "('p, 'g, 'o) solver_deps \<Rightarrow> solver_args \<Rightarrow> ('p, 'g, 'o) solver
     \<Rightarrow> outcome \<times> ('p, 'g, 'o) solver" where
  "train X A st =
     s_epoch_loop X A [0 ..< nat (s_n_epochs A)]
       (st\<lparr>s_best_val_loss := PInf, best_val_loss_epoch := 0\<rparr>)"

text \<open>A training run of the Solver: \<open>init_training\<close>, then \<open>train\<close>.\<close>

definition solver_run ::
  "('p, 'g, 'o) solver_deps \<Rightarrow> solver_args \<Rightarrow> loaded \<Rightarrow> ('p, 'g, 'o) torch_world
     \<Rightarrow> outcome \<times> ('p, 'g, 'o) solver" where
  "solver_run X A d w = train X A (init_training d w)"

subsection \<open>Inference\<close>

text \<open>\<open>' '.join(x)\<close>.\<close>

fun join :: "string list \<Rightarrow> string" where
  "join [] = []"
| "join [x] = x"
| "join (x # y # ys) = x @ '' '' @ join (y # ys)"

text \<open>\<open>list(map(lambda tok: trg.vocab.itos[tok], x))\<close>: indexing a list raises out of range.\<close>

fun itos_seq :: "string list \<Rightarrow> nat list \<Rightarrow> py_error + string list" where
  "itos_seq itos [] = Inr []"
| "itos_seq itos (tok # x) =
     (if length itos \<le> tok then Inl IndexError
      else (case itos_seq itos x of
              Inl e \<Rightarrow> Inl e
            | Inr ws \<Rightarrow> Inr (itos ! tok # ws)))"

fun itos_seqs :: "string list \<Rightarrow> nat list list \<Rightarrow> py_error + string list list" where
  "itos_seqs itos [] = Inr []"
| "itos_seqs itos (x # xs) =
     (case itos_seq itos x of
        Inl e \<Rightarrow> Inl e
      | Inr ws \<Rightarrow>
          (case itos_seqs itos xs of
             Inl e \<Rightarrow> Inl e
           | Inr wss \<Rightarrow> Inr (ws # wss)))"

text \<open>
  Lines 179-182: the loop over the test iterator. Its body ends in \<open>break\<close>, so only
  the first batch the iterator yields is translated.
\<close>

fun translate_batches ::
  "('p, 'g, 'o) solver_deps \<Rightarrow> 'p \<Rightarrow> nat \<Rightarrow> nat list list list \<Rightarrow> nat list list \<Rightarrow> nat list list" where
  "translate_batches X ps sos_tok [] output_seqs = output_seqs"
| "translate_batches X ps sos_tok (src # rest) output_seqs =
     output_seqs @ s_translate X ps src sos_tok"

text \<open>
  Lines 159-198: \<open>translate\<close>, given the \<open>batch.src\<close> of every batch that
  \<open>test_data_loader\<close> yields. The result is the text written to \<open>data/output.en\<close>.
  Opening a checkpoint file that was never written raises.
\<close>

definition translate ::
  "('p, 'g, 'o) solver_deps \<Rightarrow> ('p, 'g, 'o) solver \<Rightarrow> nat list list list \<Rightarrow> py_error + string" where
  "translate X st test_it =
     (case model_dict_pkl st of
        None \<Rightarrow> Inl FileNotFoundError
      | Some md \<Rightarrow>
          (case model_pth st of
             None \<Rightarrow> Inl FileNotFoundError
           | Some ckp \<Rightarrow>
               (let sos_tok = vocab_stoi (target_vocab md) ''<sos>'';
                    output_seqs = translate_batches X ckp sos_tok test_it []
                in case itos_seqs (vocab_itos (target_vocab md)) output_seqs of
                     Inl e \<Rightarrow> Inl e
                   | Inr toks \<Rightarrow> Inr (concat (map (\<lambda>x. join x @ [CHR 0x0A]) toks)))))"

section \<open>Specification-side notions\<close>

text \<open>
  The per-epoch records of a train.py run, read as a chain: each decision is taken
  against the best loss and the counter its predecessor left, starting from \<open>b\<close> and
  \<open>p\<close>; a record that reaches the limit \<open>plim\<close> without saving is the last one.
\<close>

fun policy_chain :: "int \<Rightarrow> pyfloat \<Rightarrow> int \<Rightarrow> epoch_rec list \<Rightarrow> bool" where
  "policy_chain plim b p [] = True"
| "policy_chain plim b p (r # rs) =
     (rec_saved r = flt_le (rec_val_loss r) b \<and>
      rec_best r = (if rec_saved r then rec_val_loss r else b) \<and>
      rec_patience r = (if rec_saved r then p else p + 1) \<and>
      (\<not> rec_saved r \<and> plim \<le> rec_patience r \<longrightarrow> rs = []) \<and>
      policy_chain plim (rec_best r) (rec_patience r) rs)"

text \<open>One epoch of train.py that reached the decision: its record and the loop variables.\<close>

definition body_appends ::
  "main_args \<Rightarrow> nat \<Rightarrow> ('p, 'g, 'o) main_state \<Rightarrow> step \<Rightarrow> ('p, 'g, 'o) main_state \<Rightarrow> epoch_rec \<Rightarrow> bool" where
  "body_appends A e st r st' rc \<longleftrightarrow>
     history st' = history st @ [rc] \<and> rec_epoch rc = e \<and>
     policy_chain (args_patience A) (best_val_loss st) (patience st) [rc] \<and>
     best_val_loss st' = rec_best rc \<and> patience st' = rec_patience rc \<and>
     (r = Break \<longleftrightarrow> \<not> rec_saved rc \<and> args_patience A \<le> rec_patience rc)"

text \<open>
  The events of one complete epoch of train.py, read off its record: the epoch starts,
  every training batch takes a full step, every validation batch is scored, and only
  then comes the decision.
\<close>

definition epoch_trace :: "main_args \<Rightarrow> epoch_rec \<Rightarrow> event list" where
  "epoch_trace A rc =
     [EvEpoch (rec_epoch rc)] @
     concat (replicate (length (train_iterator A (rec_epoch rc)))
               [EvForward, EvLoss, EvZeroGrad, EvBackward, EvClip, EvStep]) @
     concat (replicate (length (val_iterator A (rec_epoch rc))) [EvValForward, EvValLoss]) @
     (if rec_saved rc then [EvSave (rec_epoch rc)]
      else if args_patience A \<le> rec_patience rc then [EvStop (rec_epoch rc)] else [])"

text \<open>
  The per-epoch records of \<open>Solver.train\<close>, read as a chain from the best loss \<open>b\<close>.
\<close>

fun s_chain :: "pyfloat \<Rightarrow> solver_rec list \<Rightarrow> bool" where
  "s_chain b [] = True"
| "s_chain b (r # rs) =
     (sr_saved r = flt_lt (sr_val_loss r) b \<and>
      sr_best r = (if sr_saved r then sr_val_loss r else b) \<and>
      s_chain (sr_best r) rs)"

text \<open>What the batch loops of the Solver leave alone.\<close>

definition s_frame ::
  "('p, 'g, 'o) solver \<Rightarrow>
     pyfloat \<times> nat \<times> 'p option \<times> model_dict option \<times> solver_rec list \<times> criterion \<times>
     (nat \<Rightarrow> sbatch list) \<times> (nat \<Rightarrow> sbatch list)" where
  "s_frame st =
     (s_best_val_loss st, best_val_loss_epoch st, model_pth st, model_dict_pkl st, s_history st,
      s_criterion st, s_train_iterator st, s_val_iterator st)"

text \<open>The epochs at which a trace writes the parameter file.\<close>

definition saves :: "event list \<Rightarrow> nat list" where
  "saves tr = concat (map (\<lambda>ev. case ev of EvSave e \<Rightarrow> [e] | _ \<Rightarrow> []) tr)"

text \<open>Events that write neither the metadata bundle nor the parameter file.\<close>

definition quiet :: "event list \<Rightarrow> bool" where
  "quiet evs \<longleftrightarrow> EvMetadata \<notin> set evs \<and> saves evs = []"

text \<open>What \<open>Solver.train\<close> never assigns: the metadata file, the criterion, the iterators.\<close>

definition s_cfg ::
  "('p, 'g, 'o) solver \<Rightarrow>
     model_dict option \<times> criterion \<times> (nat \<Rightarrow> sbatch list) \<times> (nat \<Rightarrow> sbatch list)" where
  "s_cfg st = (model_dict_pkl st, s_criterion st, s_train_iterator st, s_val_iterator st)"

text \<open>One epoch of \<open>Solver.train\<close> that reached the decision, with the events it added.\<close>

definition s_appends ::
  "nat \<Rightarrow> ('p, 'g, 'o) solver \<Rightarrow> ('p, 'g, 'o) solver \<Rightarrow> solver_rec \<Rightarrow> event list \<Rightarrow> bool" where
  "s_appends e st st' rc evs \<longleftrightarrow>
     s_history st' = s_history st @ [rc] \<and> sr_epoch rc = e \<and>
     s_chain (s_best_val_loss st) [rc] \<and>
     s_best_val_loss st' = sr_best rc \<and> s_cfg st' = s_cfg st \<and>
     s_trace st' = s_trace st @ evs \<and> EvMetadata \<notin> set evs \<and>
     saves evs = (if sr_saved rc then [e] else [])"

text \<open>The epochs \<open>es\<close> of \<open>Solver.train\<close>: the records and the events they add.\<close>

definition s_extends ::
  "nat list \<Rightarrow> ('p, 'g, 'o) solver \<Rightarrow> outcome \<Rightarrow> ('p, 'g, 'o) solver
     \<Rightarrow> solver_rec list \<Rightarrow> event list \<Rightarrow> bool" where
  "s_extends es st out st' rs evs \<longleftrightarrow>
     s_history st' = s_history st @ rs \<and>
     s_chain (s_best_val_loss st) rs \<and>
     map sr_epoch rs = take (length rs) es \<and>
     s_best_val_loss st' = last (s_best_val_loss st # map sr_best rs) \<and>
     s_cfg st' = s_cfg st \<and>
     out \<noteq> EarlyStopped \<and>
     (out = Exhausted \<longrightarrow> length rs = length es) \<and>
     s_trace st' = s_trace st @ evs \<and> EvMetadata \<notin> set evs \<and>
     saves evs = map sr_epoch (filter sr_saved rs)"

text \<open>
  \<open>b\<close> is the least of the losses \<open>vs\<close> and of the initial \<open>+inf\<close>: it is one of them
  and none of them is below it. NaN compares false with everything, so it is never the
  least and never below it.
\<close>

definition is_running_min :: "pyfloat \<Rightarrow> pyfloat list \<Rightarrow> bool" where
  "is_running_min b vs \<longleftrightarrow> (b = PInf \<or> b \<in> set vs) \<and> (\<forall>v\<in>set vs. \<not> flt_lt v b)"

text \<open>
  Over the (validation loss, best loss after the epoch) pairs of a run: after every
  epoch the best loss is the least of the losses seen so far.
\<close>

fun best_is_min :: "pyfloat list \<Rightarrow> (pyfloat \<times> pyfloat) list \<Rightarrow> bool" where
  "best_is_min seen [] = True"
| "best_is_min seen ((v, b) # rest) =
     (is_running_min b (seen @ [v]) \<and> best_is_min (seen @ [v]) rest)"

text \<open>Both loops decide by one comparison \<open>cmp\<close> against the best loss so far.\<close>

fun decision_chain ::
  "(pyfloat \<Rightarrow> pyfloat \<Rightarrow> bool) \<Rightarrow> pyfloat \<Rightarrow> (pyfloat \<times> bool \<times> pyfloat) list \<Rightarrow> bool" where
  "decision_chain cmp b [] = True"
| "decision_chain cmp b ((v, s, b') # rest) =
     (s = cmp v b \<and> b' = (if s then v else b) \<and> decision_chain cmp b' rest)"

text \<open>
  No loss of the sequence equals the best loss at the time it is observed (starting
  from \<open>b\<close>). Float equality: NaN equals nothing.
\<close>

fun tie_free :: "pyfloat \<Rightarrow> pyfloat list \<Rightarrow> bool" where
  "tie_free b [] = True"
| "tie_free b (v # vs) =
     (\<not> (v = b \<and> v \<noteq> NaN) \<and> tie_free (if flt_lt v b then v else b) vs)"

text \<open>
  Modelled from the spec: the \<open>loss\<close> method of the model classes of module model2lstm,
  which train.py calls and which is not among the sources. Section 4.1 of the
  specification: the summed cross-entropy of the score tensor against the target
  sequence, the first decoding step excluded from both sides.
\<close>

definition model_loss_spec :: "logits \<Rightarrow> nat list list \<Rightarrow> criterion \<Rightarrow> py_error + pyfloat" where
  "model_loss_spec logits_seq trg crit = crit (concat (drop 1 logits_seq)) (concat (drop 1 trg))"

text \<open>Adding up the losses of the batches in order, stopping at the first that raises.\<close>

fun sum_losses :: "(py_error + pyfloat) list \<Rightarrow> pyfloat \<Rightarrow> py_error + pyfloat" where
  "sum_losses [] acc = Inr acc"
| "sum_losses (Inl e # ls) acc = Inl e"
| "sum_losses (Inr l # ls) acc = sum_losses ls (flt_add acc l)"

text \<open>The loss of one Solver batch at parameters \<open>ps\<close>, as lines 113-123 compute it.\<close>

definition s_batch_loss ::
  "('p, 'g, 'o) solver_deps \<Rightarrow> criterion \<Rightarrow> bool \<Rightarrow> 'p \<Rightarrow> sbatch \<Rightarrow> py_error + pyfloat" where
  "s_batch_loss Y crit m ps b =
     crit (concat (drop 1 (s_forward Y m ps (b_src b) (b_trg b)))) (concat (drop 1 (b_trg b)))"

text \<open>The loss of one train.py batch in inference mode, as lines 137-141 compute it.\<close>

definition val_batch_loss ::
  "('p, 'g, 'o) main_deps \<Rightarrow> main_args \<Rightarrow> bool \<Rightarrow> 'p \<Rightarrow> batch \<Rightarrow> py_error + pyfloat" where
  "val_batch_loss X A m ps b =
     model_loss X
       (snd (forward_infer X m ps b (target_sos_idx A) (int (length (trg_seq b)) - 1)))
       (trg_seq b) (CrossEntropyLoss (target_pad_idx A) Sum)"

section \<open>Small concrete instances\<close>

text \<open>
  One batch per iterator; the parameters count the optimizer steps taken, and the
  validation loss after \<open>p\<close> steps is the \<open>p\<close>-th entry of a table.
\<close>

definition toy_batch :: batch where
  "toy_batch = \<lparr>src_seq = [[1]], src_len = [1], trg_seq = [[1], [2]], trg_len = [2]\<rparr>"

definition toy_deps :: "real list \<Rightarrow> (nat, unit, unit) main_deps" where
  "toy_deps ls =
     \<lparr>forward_train = (\<lambda>m p b. [[[0]]]),
      forward_infer = (\<lambda>m p b sos n. ([], [[[if p - 1 < length ls then ls ! (p - 1) else 0]]])),
      model_loss = (\<lambda>lg trg crit. case lg of [[[x]]] \<Rightarrow> Inr (Fin x) | _ \<Rightarrow> Inl ValueError),
      zero_grad = (\<lambda>g. g),
      backward = (\<lambda>m p b g. g),
      clip_grad_norm = (\<lambda>c g. g),
      opt_step = (\<lambda>os p g. (os, Suc p))\<rparr>"

definition toy_args :: "int \<Rightarrow> int \<Rightarrow> main_args" where
  "toy_args n pl =
     \<lparr>n_epochs = n, args_patience = pl, grad_clip = 5, target_pad_idx = 0, target_sos_idx = 1,
      train_iterator = (\<lambda>e. [toy_batch]), val_iterator = (\<lambda>e. [toy_batch])\<rparr>"

definition toy_world :: "(nat, unit, unit) torch_world" where
  "toy_world = \<lparr>params = 0, grads = (), opt_state = (), training = False\<rparr>"

text \<open>
  One batch of one sequence, two classes; after \<open>p\<close> optimizer steps the network scores
  the target so that its cross-entropy is the \<open>p\<close>-th entry of a table.
\<close>

definition toy_sbatch :: sbatch where
  "toy_sbatch = \<lparr>b_src = [[0]], b_trg = [[2], [0]]\<rparr>"

definition toy_field :: field where
  "toy_field =
     \<lparr>vocab_itos = [''hello'', ''<pad>'', ''<sos>''],
      vocab_stoi = (\<lambda>s. if s = ''<pad>'' then 1 else if s = ''<sos>'' then 2 else 0),
      pad_token = ''<pad>''\<rparr>"

definition toy_loaded :: loaded where
  "toy_loaded =
     \<lparr>ld_src = toy_field, ld_trg = toy_field,
      ld_train_iterator = (\<lambda>e. [toy_sbatch]), ld_val_iterator = (\<lambda>e. [toy_sbatch])\<rparr>"

definition toy_solver_deps :: "real list \<Rightarrow> (nat, unit, unit) solver_deps" where
  "toy_solver_deps ls =
     \<lparr>s_forward = (\<lambda>m p src trg.
         [[[0, 0]], [[0, ln (exp (if p - 1 < length ls then ls ! (p - 1) else 1) - 1)]]]),
      s_translate = (\<lambda>p src sos. case src of [] \<Rightarrow> [] | row # _ \<Rightarrow> map (\<lambda>tok. [tok, tok]) row),
      s_zero_grad = (\<lambda>g. g),
      s_backward = (\<lambda>m p b g. g),
      s_clip_grad_norm = (\<lambda>c g. g),
      s_opt_step = (\<lambda>os p g. (os, Suc p))\<rparr>"

definition toy_solver_args :: "int \<Rightarrow> solver_args" where
  "toy_solver_args n = \<lparr>s_n_epochs = n, clip = 1\<rparr>"

text \<open>
  The instance of train.py with the loss method as the specification describes it and
  a network that scores three classes.
\<close>

definition toy_spec_deps :: "(nat, unit, unit) main_deps" where
  "toy_spec_deps =
     (toy_deps [5])\<lparr>forward_train := (\<lambda>m p b. [[[0, 0, 0]], [[0, 0, 0]]]),
                    model_loss := model_loss_spec\<rparr>"

text \<open>A Solver batch whose only scored target position holds the padding token.\<close>

definition pad_sbatch :: sbatch where
  "pad_sbatch = \<lparr>b_src = [[0]], b_trg = [[2], [1]]\<rparr>"

text \<open>The Solver after one epoch of training, with both checkpoint files written.\<close>

definition toy_trained :: "(nat, unit, unit) solver" where
  "toy_trained = snd (solver_run (toy_solver_deps [5]) (toy_solver_args 1) toy_loaded toy_world)"

section \<open>Facts about the training loop of train.py\<close>

lemmas toy_defs = main_run_def main_init_def epoch_body_def checkpoint_policy_def train_step_def
  toy_deps_def toy_args_def toy_world_def toy_batch_def Let_def

lemma train_step_policy:
  "best_val_loss (snd (train_step X A b st)) = best_val_loss st \<and>
   patience (snd (train_step X A b st)) = patience st \<and>
   model_pkl (snd (train_step X A b st)) = model_pkl st \<and>
   history (snd (train_step X A b st)) = history st"
  by (auto simp: train_step_def Let_def split: sum.splits prod.splits)

lemma train_batches_policy:
  "best_val_loss (snd (train_batches X A bs acc st)) = best_val_loss st \<and>
   patience (snd (train_batches X A bs acc st)) = patience st \<and>
   model_pkl (snd (train_batches X A bs acc st)) = model_pkl st \<and>
   history (snd (train_batches X A bs acc st)) = history st"
proof (induction bs arbitrary: acc st)
  case Nil
  then show ?case by simp
next
  case (Cons b bs)
  obtain l t s where acc: "acc = (l, t, s)" by (cases acc) auto
  obtain r st' where ts: "train_step X A b st = (r, st')" by (cases "train_step X A b st")
  have p: "best_val_loss st' = best_val_loss st" "patience st' = patience st"
      "model_pkl st' = model_pkl st" "history st' = history st"
    using train_step_policy[of X A b st] ts by simp_all
  show ?case unfolding acc using ts p
    by (simp add: Let_def Cons.IH split: sum.splits)
qed

lemma val_batches_frame:
  "best_val_loss (snd (val_batches X A bs acc st)) = best_val_loss st \<and>
   patience (snd (val_batches X A bs acc st)) = patience st \<and>
   model_pkl (snd (val_batches X A bs acc st)) = model_pkl st \<and>
   history (snd (val_batches X A bs acc st)) = history st \<and>
   model (snd (val_batches X A bs acc st)) = model st"
proof (induction bs arbitrary: acc st)
  case Nil
  then show ?case by simp
next
  case (Cons b bs)
  obtain l t s where acc: "acc = (l, t, s)" by (cases acc) auto
  show ?case unfolding acc
    by (simp add: Let_def Cons.IH split: sum.splits prod.splits)
qed

lemma checkpoint_policy_rec:
  assumes "checkpoint_policy A e v st = (r, st')"
  shows "\<exists>rc. history st' = history st @ [rc] \<and> rec_val_loss rc = v \<and> rec_epoch rc = e \<and>
           policy_chain (args_patience A) (best_val_loss st) (patience st) [rc] \<and>
           best_val_loss st' = rec_best rc \<and> patience st' = rec_patience rc \<and>
           r \<noteq> Raise err \<and>
           (r = Break \<longleftrightarrow> \<not> rec_saved rc \<and> args_patience A \<le> rec_patience rc)"
proof (cases "flt_le v (best_val_loss st)")
  case True
  let ?rc = "\<lparr>rec_epoch = e, rec_val_loss = v, rec_saved = True,
              rec_patience = patience st, rec_best = v\<rparr>"
  show ?thesis
    by (rule exI[where x = ?rc]) (use assms True in \<open>auto simp: checkpoint_policy_def\<close>)
next
  case False
  let ?rc = "\<lparr>rec_epoch = e, rec_val_loss = v, rec_saved = False,
              rec_patience = patience st + 1, rec_best = best_val_loss st\<rparr>"
  show ?thesis
    by (rule exI[where x = ?rc])
       (use assms False in \<open>auto simp: checkpoint_policy_def Let_def split: if_splits\<close>)
qed

lemma epoch_body_cases:
  assumes "epoch_body X A e st = (r, st')"
  shows "(history st' = history st \<and> best_val_loss st' = best_val_loss st \<and>
          patience st' = patience st \<and> (\<exists>err. r = Raise err))
       \<or> (\<exists>rc. body_appends A e st r st' rc)"
proof -
  define st1 where "st1 = st\<lparr>model := (model st)\<lparr>training := True\<rparr>, trace := trace st @ [EvEpoch e]\<rparr>"
  obtain tr st2 where tb: "train_batches X A (train_iterator A e) (Fin 0, 0, 0) st1 = (tr, st2)"
    by (cases "train_batches X A (train_iterator A e) (Fin 0, 0, 0) st1")
  have f2: "best_val_loss st2 = best_val_loss st" "patience st2 = patience st" "history st2 = history st"
    using train_batches_policy[of X A "train_iterator A e" "(Fin 0, 0, 0)" st1] tb
    by (simp_all add: st1_def)
  define st3 where "st3 = st2\<lparr>model := (model st2)\<lparr>training := False\<rparr>\<rparr>"
  obtain vr st4 where vb: "val_batches X A (val_iterator A e) (Fin 0, 0, 0) st3 = (vr, st4)"
    by (cases "val_batches X A (val_iterator A e) (Fin 0, 0, 0) st3")
  have f4: "best_val_loss st4 = best_val_loss st" "patience st4 = patience st" "history st4 = history st"
    using val_batches_frame[of X A "val_iterator A e" "(Fin 0, 0, 0)" st3] vb f2
    by (simp_all add: st3_def)
  show ?thesis
  proof (cases tr)
    case (Inl err)
    then show ?thesis using assms tb f2 by (auto simp: epoch_body_def st1_def Let_def)
  next
    case (Inr acc)
    note tr = this
    show ?thesis
    proof (cases "val_iterator A e = []")
      case True
      then show ?thesis using assms tb tr f2
        by (auto simp: epoch_body_def st1_def Let_def)
    next
      case False
      note ne = this
      show ?thesis
      proof (cases vr)
        case (Inl err)
        then show ?thesis using assms tb tr ne vb f4
          by (auto simp: epoch_body_def st1_def st3_def Let_def)
      next
        case (Inr vacc)
        obtain v toks seqs where vacc: "vacc = (v, toks, seqs)" by (cases vacc) auto
        obtain r5 st5 where cp: "checkpoint_policy A e v st4 = (r5, st5)"
          by (cases "checkpoint_policy A e v st4")
        have eb: "epoch_body X A e st =
            (case r5 of Next \<Rightarrow> if toks = 0 \<or> seqs = 0 then (Raise ZeroDivisionError, st5) else (Next, st5)
             | _ \<Rightarrow> (r5, st5))"
          using tb tr ne vb Inr vacc cp
          by (simp add: epoch_body_def st1_def st3_def Let_def split: step.splits)
        from checkpoint_policy_rec[OF cp, of ZeroDivisionError]
        obtain rc where rc: "history st5 = history st4 @ [rc]" "rec_epoch rc = e"
           "policy_chain (args_patience A) (best_val_loss st4) (patience st4) [rc]"
           "best_val_loss st5 = rec_best rc" "patience st5 = rec_patience rc"
           "(r5 = Break \<longleftrightarrow> \<not> rec_saved rc \<and> args_patience A \<le> rec_patience rc)"
          by blast
        have st': "st' = st5" using eb assms by (auto split: step.splits if_splits)
        have rr: "r = r5 \<or> (r5 = Next \<and> r = Raise ZeroDivisionError)"
          using eb assms by (auto split: step.splits if_splits)
        have "body_appends A e st r st' rc"
          unfolding body_appends_def using rc f4 st' rr by auto
        then show ?thesis by blast
      qed
    qed
  qed
qed

lemma policy_chain_Cons1:
  "policy_chain L b p [rc] \<Longrightarrow> (\<not> rec_saved rc \<and> L \<le> rec_patience rc \<longrightarrow> rs = []) \<Longrightarrow>
   policy_chain L (rec_best rc) (rec_patience rc) rs \<Longrightarrow> policy_chain L b p (rc # rs)"
  by simp

lemma epoch_loop_history:
  assumes "epoch_loop X A es st = (out, st')"
  shows "\<exists>rs. history st' = history st @ rs \<and>
              policy_chain (args_patience A) (best_val_loss st) (patience st) rs \<and>
              map rec_epoch rs = take (length rs) es \<and>
              best_val_loss st' = last (best_val_loss st # map rec_best rs) \<and>
              patience st' = last (patience st # map rec_patience rs) \<and>
              (out = EarlyStopped \<longleftrightarrow>
                 rs \<noteq> [] \<and> \<not> rec_saved (last rs) \<and> args_patience A \<le> rec_patience (last rs)) \<and>
              (out = Exhausted \<longrightarrow> length rs = length es)"
  using assms
proof (induction es arbitrary: st)
  case Nil
  then show ?case by auto
next
  case (Cons e es)
  obtain r st1 where eb: "epoch_body X A e st = (r, st1)" by (cases "epoch_body X A e st")
  from epoch_body_cases[OF eb]
  consider (raised) err where "history st1 = history st" "best_val_loss st1 = best_val_loss st"
      "patience st1 = patience st" "r = Raise err"
    | (decided) rc where "body_appends A e st r st1 rc" by blast
  then show ?case
  proof cases
    case raised
    then have "out = Raised err" "st' = st1" using Cons.prems eb by auto
    then show ?thesis using raised by (intro exI[where x = "[]"]) simp
  next
    case decided
    note d = decided[unfolded body_appends_def]
    show ?thesis
    proof (cases r)
      case Next
      then have rec: "epoch_loop X A es st1 = (out, st')" using Cons.prems eb by simp
      from Cons.IH[OF rec] obtain rs where rs:
        "history st' = history st1 @ rs"
        "policy_chain (args_patience A) (best_val_loss st1) (patience st1) rs"
        "map rec_epoch rs = take (length rs) es"
        "best_val_loss st' = last (best_val_loss st1 # map rec_best rs)"
        "patience st' = last (patience st1 # map rec_patience rs)"
        "(out = EarlyStopped \<longleftrightarrow>
            rs \<noteq> [] \<and> \<not> rec_saved (last rs) \<and> args_patience A \<le> rec_patience (last rs))"
        "(out = Exhausted \<longrightarrow> length rs = length es)" by blast
      have nb: "\<not> (\<not> rec_saved rc \<and> args_patience A \<le> rec_patience rc)"
        using d Next by blast
      have ch: "policy_chain (args_patience A) (best_val_loss st) (patience st) (rc # rs)"
      proof (rule policy_chain_Cons1)
        show "policy_chain (args_patience A) (best_val_loss st) (patience st) [rc]" using d by blast
        show "\<not> rec_saved rc \<and> args_patience A \<le> rec_patience rc \<longrightarrow> rs = []" using nb by blast
        show "policy_chain (args_patience A) (rec_best rc) (rec_patience rc) rs"
          using rs(2) d by metis
      qed
      have h: "history st' = history st @ rc # rs" using rs(1) d by simp
      have ep: "map rec_epoch (rc # rs) = take (length (rc # rs)) (e # es)"
        using rs(3) d by simp
      have b: "best_val_loss st' = last (best_val_loss st # map rec_best (rc # rs))"
        using rs(4) d by simp
      have pt: "patience st' = last (patience st # map rec_patience (rc # rs))"
        using rs(5) d by simp
      have es: "(out = EarlyStopped \<longleftrightarrow> (rc # rs) \<noteq> [] \<and> \<not> rec_saved (last (rc # rs)) \<and>
                  args_patience A \<le> rec_patience (last (rc # rs)))"
        using rs(6) nb by (cases "rs = []") auto
      have ex: "(out = Exhausted \<longrightarrow> length (rc # rs) = length (e # es))"
        using rs(7) by simp
      show ?thesis
        using h ch ep b pt es ex by blast
    next
      case Break
      then have o: "out = EarlyStopped" "st' = st1" using Cons.prems eb by auto
      have "history st' = history st @ [rc]" using d o by simp
      moreover have "policy_chain (args_patience A) (best_val_loss st) (patience st) [rc]"
        using d by blast
      moreover have "map rec_epoch [rc] = take (length [rc]) (e # es)" using d by simp
      moreover have "best_val_loss st' = last (best_val_loss st # map rec_best [rc])"
        using d o by simp
      moreover have "patience st' = last (patience st # map rec_patience [rc])"
        using d o by simp
      moreover have "(out = EarlyStopped \<longleftrightarrow> [rc] \<noteq> [] \<and> \<not> rec_saved (last [rc]) \<and>
                  args_patience A \<le> rec_patience (last [rc]))"
      proof -
        have "\<not> rec_saved rc \<and> args_patience A \<le> rec_patience rc" using d Break by blast
        then show ?thesis using o by simp
      qed
      moreover have "(out = Exhausted \<longrightarrow> length [rc] = length (e # es))" using o by simp
      ultimately show ?thesis by blast
    next
      case (Raise err)
      then have o: "out = Raised err" "st' = st1" using Cons.prems eb by auto
      have "history st' = history st @ [rc]" using d o by simp
      moreover have "policy_chain (args_patience A) (best_val_loss st) (patience st) [rc]"
        using d by blast
      moreover have "map rec_epoch [rc] = take (length [rc]) (e # es)" using d by simp
      moreover have "best_val_loss st' = last (best_val_loss st # map rec_best [rc])"
        using d o by simp
      moreover have "patience st' = last (patience st # map rec_patience [rc])"
        using d o by simp
      moreover have "(out = EarlyStopped \<longleftrightarrow> [rc] \<noteq> [] \<and> \<not> rec_saved (last [rc]) \<and>
                  args_patience A \<le> rec_patience (last [rc]))"
      proof -
        have "\<not> (\<not> rec_saved rc \<and> args_patience A \<le> rec_patience rc)" using d Raise by blast
        then show ?thesis using o by simp
      qed
      moreover have "(out = Exhausted \<longrightarrow> length [rc] = length (e # es))" using o by simp
      ultimately show ?thesis by blast
    qed
  qed
qed

lemma epochs_from_one:
  assumes "map f rs = take (length rs) [1 ..< m]"
  shows "map f rs = [1 ..< Suc (length rs)]"
proof (cases "rs = []")
  case True
  then show ?thesis by simp
next
  case False
  have "length (map f rs) = length (take (length rs) [1 ..< m])" using assms by simp
  then have "length rs \<le> m - 1" by simp
  then have "1 + length rs \<le> m" using False by (cases rs) auto
  then have "take (length rs) [1 ..< m] = [1 ..< 1 + length rs]"
    by (rule take_upt)
  then show ?thesis using assms by simp
qed

lemma main_run_history:
  assumes "main_run X A w = (out, st)"
  shows "policy_chain (args_patience A) PInf 0 (history st) \<and>
         map rec_epoch (history st) = [1 ..< Suc (length (history st))] \<and>
         best_val_loss st = last (PInf # map rec_best (history st)) \<and>
         patience st = last (0 # map rec_patience (history st)) \<and>
         (out = EarlyStopped \<longleftrightarrow>
            history st \<noteq> [] \<and> \<not> rec_saved (last (history st)) \<and>
            args_patience A \<le> rec_patience (last (history st))) \<and>
         (out = Exhausted \<longrightarrow> length (history st) = nat (n_epochs A + 1) - 1)"
proof -
  from epoch_loop_history[OF assms[unfolded main_run_def]]
  obtain rs where rs: "history st = history (main_init w) @ rs"
    "policy_chain (args_patience A) (best_val_loss (main_init w)) (patience (main_init w)) rs"
    "map rec_epoch rs = take (length rs) [1 ..< nat (n_epochs A + 1)]"
    "best_val_loss st = last (best_val_loss (main_init w) # map rec_best rs)"
    "patience st = last (patience (main_init w) # map rec_patience rs)"
    "(out = EarlyStopped \<longleftrightarrow>
        rs \<noteq> [] \<and> \<not> rec_saved (last rs) \<and> args_patience A \<le> rec_patience (last rs))"
    "(out = Exhausted \<longrightarrow> length rs = length [1 ..< nat (n_epochs A + 1)])" by blast
  have h: "history st = rs" using rs(1) by (simp add: main_init_def)
  show ?thesis
    using rs(2-7) epochs_from_one[OF rs(3)] unfolding h by (simp add: main_init_def)
qed

subsection \<open>The trace of a run\<close>

lemma train_step_trace:
  assumes "train_step X A b st = (Inr l, st')"
  shows "trace st' = trace st @ [EvForward, EvLoss, EvZeroGrad, EvBackward, EvClip, EvStep]"
  using assms by (auto simp: train_step_def Let_def split: sum.splits prod.splits)

lemma train_batches_trace:
  assumes "train_batches X A bs acc st = (Inr acc', st')"
  shows "trace st' = trace st @
           concat (replicate (length bs) [EvForward, EvLoss, EvZeroGrad, EvBackward, EvClip, EvStep])"
  using assms
proof (induction bs arbitrary: acc st)
  case Nil
  then show ?case by simp
next
  case (Cons b bs)
  obtain l t s where acc: "acc = (l, t, s)" by (cases acc) auto
  obtain r st1 where ts: "train_step X A b st = (r, st1)" by (cases "train_step X A b st")
  from Cons.prems acc ts obtain loss where r: "r = Inr loss"
    by (cases r) auto
  from Cons.prems acc ts r
  have rec: "train_batches X A bs (flt_add l loss, t + sum_list (trg_len b), s + length (trg_len b)) st1
             = (Inr acc', st')"
    by (simp add: Let_def split: if_splits)
  have "trace st1 = trace st @ [EvForward, EvLoss, EvZeroGrad, EvBackward, EvClip, EvStep]"
    using train_step_trace ts r by blast
  then show ?case using Cons.IH[OF rec] by simp
qed

lemma val_batches_trace:
  assumes "val_batches X A bs acc st = (Inr acc', st')"
  shows "trace st' = trace st @ concat (replicate (length bs) [EvValForward, EvValLoss])"
  using assms
proof (induction bs arbitrary: acc st)
  case Nil
  then show ?case by simp
next
  case (Cons b bs)
  obtain l t s where acc: "acc = (l, t, s)" by (cases acc) auto
  show ?case
    using Cons.prems unfolding acc
    by (auto simp: Let_def split: sum.splits prod.splits dest!: Cons.IH)
qed

lemma epoch_body_trace:
  assumes "epoch_body X A e st = (r, st')" and "r = Next \<or> r = Break"
  shows "trace st' = trace st @ epoch_trace A (last (history st'))"
proof -
  define st1 where "st1 = st\<lparr>model := (model st)\<lparr>training := True\<rparr>, trace := trace st @ [EvEpoch e]\<rparr>"
  obtain tr st2 where tb: "train_batches X A (train_iterator A e) (Fin 0, 0, 0) st1 = (tr, st2)"
    by (cases "train_batches X A (train_iterator A e) (Fin 0, 0, 0) st1")
  define st3 where "st3 = st2\<lparr>model := (model st2)\<lparr>training := False\<rparr>\<rparr>"
  obtain vr st4 where vb: "val_batches X A (val_iterator A e) (Fin 0, 0, 0) st3 = (vr, st4)"
    by (cases "val_batches X A (val_iterator A e) (Fin 0, 0, 0) st3")
  from assms tb obtain acc where tr: "tr = Inr acc"
    by (cases tr) (auto simp: epoch_body_def st1_def Let_def)
  from assms tb tr have ne: "val_iterator A e \<noteq> []"
    by (auto simp: epoch_body_def st1_def Let_def split: if_splits)
  from assms tb tr ne vb obtain v toks seqs where vr: "vr = Inr (v, toks, seqs)"
    by (cases vr) (auto simp: epoch_body_def st1_def st3_def Let_def)
  obtain r5 st5 where cp: "checkpoint_policy A e v st4 = (r5, st5)"
    by (cases "checkpoint_policy A e v st4")
  have eb: "epoch_body X A e st =
      (case r5 of Next \<Rightarrow> if toks = 0 \<or> seqs = 0 then (Raise ZeroDivisionError, st5) else (Next, st5)
       | _ \<Rightarrow> (r5, st5))"
    using tb tr ne vb vr cp
    by (simp add: epoch_body_def st1_def st3_def Let_def split: step.splits)
  have st': "st' = st5" and rr: "r = r5"
    using eb assms by (auto split: step.splits if_splits)
  have t2: "trace st2 = trace st @ [EvEpoch e] @
      concat (replicate (length (train_iterator A e)) [EvForward, EvLoss, EvZeroGrad, EvBackward, EvClip, EvStep])"
    using train_batches_trace[OF tb[unfolded tr]] by (simp add: st1_def)
  have t4: "trace st4 = trace st2 @ concat (replicate (length (val_iterator A e)) [EvValForward, EvValLoss])"
    using val_batches_trace[OF vb[unfolded vr]] by (simp add: st3_def)
  have t5: "trace st5 = trace st4 @
      (if rec_saved (last (history st5)) then [EvSave e]
       else if args_patience A \<le> rec_patience (last (history st5)) then [EvStop e] else [])"
    and e5: "rec_epoch (last (history st5)) = e"
    using cp by (auto simp: checkpoint_policy_def Let_def split: if_splits)
  show ?thesis unfolding st' epoch_trace_def e5 using t2 t4 t5 by simp
qed

lemma epoch_loop_trace:
  assumes "epoch_loop X A es st = (out, st')" and "out = Exhausted \<or> out = EarlyStopped"
  shows "trace st' = trace st @
           concat (map (epoch_trace A) (drop (length (history st)) (history st')))"
  using assms
proof (induction es arbitrary: st)
  case Nil
  then show ?case by auto
next
  case (Cons e es)
  obtain r st1 where eb: "epoch_body X A e st = (r, st1)" by (cases "epoch_body X A e st")
  have nr: "r = Next \<or> r = Break"
    using Cons.prems eb by (cases r) auto
  from epoch_body_cases[OF eb] nr obtain rc where "body_appends A e st r st1 rc" by auto
  then have h1: "history st1 = history st @ [rc]" by (simp add: body_appends_def)
  have t1: "trace st1 = trace st @ epoch_trace A rc"
    using epoch_body_trace[OF eb nr] h1 by simp
  show ?case
  proof (cases r)
    case Next
    then have rec: "epoch_loop X A es st1 = (out, st')" using Cons.prems eb by simp
    from epoch_loop_history[OF rec] obtain rs where rs: "history st' = history st1 @ rs" by blast
    have d: "drop (length (history st)) (history st') = rc # rs"
      and d1: "drop (length (history st1)) (history st') = rs"
      using rs h1 by simp_all
    show ?thesis using Cons.IH[OF rec Cons.prems(2)] t1 unfolding d d1 by simp
  next
    case Break
    then have "st' = st1" using Cons.prems eb by auto
    then show ?thesis using t1 h1 by simp
  next
    case (Raise err)
    then show ?thesis using nr by simp
  qed
qed

lemma main_run_trace:
  assumes "main_run X A w = (out, st)" and "out = Exhausted \<or> out = EarlyStopped"
  shows "trace st = concat (map (epoch_trace A) (history st))"
  using epoch_loop_trace[OF assms(1)[unfolded main_run_def] assms(2)]
  by (simp add: main_init_def)

lemma last_concat_map:
  "xs \<noteq> [] \<Longrightarrow> f (last xs) \<noteq> [] \<Longrightarrow> last (concat (map f xs)) = last (f (last xs))"
  by (induction xs rule: rev_induct) auto

lemma last_epoch_trace_stop:
  "\<not> rec_saved rc \<Longrightarrow> args_patience A \<le> rec_patience rc \<Longrightarrow>
   epoch_trace A rc \<noteq> [] \<and> last (epoch_trace A rc) = EvStop (rec_epoch rc)"
  by (simp add: epoch_trace_def)

lemma last_epoch_number:
  assumes "map f rs = [1 ..< Suc (length rs)]" and "rs \<noteq> []"
  shows "f (last rs) = length rs"
proof -
  have "f (last rs) = last (map f rs)" using assms(2) by (simp add: last_map)
  also have "\<dots> = last [1 ..< Suc (length rs)]" by (simp only: assms(1))
  also have "\<dots> = Suc (length rs) - 1"
    by (rule last_upt) (use assms(2) in simp)
  finally show ?thesis by simp
qed

lemma take3_map_Cons:
  assumes "take 3 (map f h) = [a, b, c]"
  shows "\<exists>r1 r2 r3 rest. h = r1 # r2 # r3 # rest \<and> f r1 = a \<and> f r2 = b \<and> f r3 = c"
proof (cases h)
  case Nil
  then show ?thesis using assms by simp
next
  case c1: (Cons r1 t1)
  show ?thesis
  proof (cases t1)
    case Nil
    then show ?thesis using assms c1 by (simp add: numeral_3_eq_3)
  next
    case c2: (Cons r2 t2)
    show ?thesis
    proof (cases t2)
      case Nil
      then show ?thesis using assms c1 c2 by (simp add: numeral_3_eq_3)
    next
      case (Cons r3 rest)
      then show ?thesis using assms c1 c2 by (simp add: numeral_3_eq_3)
    qed
  qed
qed

text \<open>
  C3. The early-stopping test runs once per epoch, after the whole training pass and the
  whole validation pass of that epoch: the trace of a run that stops early is a sequence
  of complete epochs and ends with the stop event. With a patience limit of 2 and
  validation losses 5, 6, 7 in the first three epochs, the run stops after the third
  epoch, whatever the configured number of epochs.
\<close>

theorem early_stopping_at_epoch_boundary:
  "(main_run X A w = (out, st) \<and> out = EarlyStopped \<longrightarrow>
      trace st = concat (map (epoch_trace A) (history st)) \<and>
      history st \<noteq> [] \<and>
      last (trace st) = EvStop (length (history st))) \<and>
   (main_run X A w = (out, st) \<and> args_patience A = 2 \<and>
    take 3 (map rec_val_loss (history st)) = [Fin 5, Fin 6, Fin 7] \<longrightarrow>
      out = EarlyStopped \<and>
      map rec_epoch (history st) = [1, 2, 3] \<and>
      map rec_patience (history st) = [0, 1, 2])"
proof (intro conjI impI)
  assume a: "main_run X A w = (out, st) \<and> out = EarlyStopped"
  then have run: "main_run X A w = (out, st)" and o: "out = EarlyStopped" by blast+
  note H = main_run_history[OF run]
  show tr: "trace st = concat (map (epoch_trace A) (history st))"
    using main_run_trace[OF run] o by blast
  show ne: "history st \<noteq> []" using H o by blast
  have l: "\<not> rec_saved (last (history st))"
      "args_patience A \<le> rec_patience (last (history st))"
    using H o by blast+
  have ep: "map rec_epoch (history st) = [1 ..< Suc (length (history st))]" using H by blast
  have e: "rec_epoch (last (history st)) = length (history st)"
    using last_epoch_number[OF ep ne] .
  note lt = last_epoch_trace_stop[OF l]
  have "last (trace st) = last (epoch_trace A (last (history st)))"
    unfolding tr using ne lt by (intro last_concat_map) blast+
  then show "last (trace st) = EvStop (length (history st))"
    using lt e by simp
next
  assume a: "main_run X A w = (out, st) \<and> args_patience A = 2 \<and>
    take 3 (map rec_val_loss (history st)) = [Fin 5, Fin 6, Fin 7]"
  then have run: "main_run X A w = (out, st)" and p: "args_patience A = 2"
    and vl: "take 3 (map rec_val_loss (history st)) = [Fin 5, Fin 6, Fin 7]" by blast+
  note H = main_run_history[OF run]
  from take3_map_Cons[OF vl] obtain r1 r2 r3 rest where h: "history st = r1 # r2 # r3 # rest"
    and v: "rec_val_loss r1 = Fin 5" "rec_val_loss r2 = Fin 6" "rec_val_loss r3 = Fin 7"
    by blast
  have ch0: "policy_chain (args_patience A) PInf 0 (history st)" using H by blast
  have ch: "policy_chain 2 PInf 0 (r1 # r2 # r3 # rest)" using ch0 unfolding h p .
  have s1: "rec_saved r1" "rec_best r1 = Fin 5" "rec_patience r1 = 0"
    using ch v by simp_all
  have s2: "\<not> rec_saved r2" "rec_best r2 = Fin 5" "rec_patience r2 = 1"
    using ch v s1 by simp_all
  have s3: "\<not> rec_saved r3" "rec_patience r3 = 2"
    using ch v s1 s2 by simp_all
  have rest: "rest = []" using ch s3 by simp
  have h3: "history st = [r1, r2, r3]" using h rest by simp
  have "out = EarlyStopped \<longleftrightarrow> history st \<noteq> [] \<and> \<not> rec_saved (last (history st)) \<and>
            args_patience A \<le> rec_patience (last (history st))" using H by blast
  then show "out = EarlyStopped" using p s3 unfolding h3 by simp
  have "map rec_epoch (history st) = [1 ..< Suc (length (history st))]" using H by blast
  then show "map rec_epoch (history st) = [1, 2, 3]" unfolding h3 by (simp add: upt_conv_Cons)
  show "map rec_patience (history st) = [0, 1, 2]" unfolding h3 using s1 s2 s3 by simp
qed

theorem early_stopping_at_epoch_boundary_witness:
  "main_run (toy_deps [5, 6, 7]) (toy_args 10 2) toy_world =
     (EarlyStopped, snd (main_run (toy_deps [5, 6, 7]) (toy_args 10 2) toy_world)) \<and>
   args_patience (toy_args 10 2) = 2 \<and>
   take 3 (map rec_val_loss (history (snd (main_run (toy_deps [5, 6, 7]) (toy_args 10 2) toy_world))))
     = [Fin 5, Fin 6, Fin 7] \<and>
   map rec_epoch (history (snd (main_run (toy_deps [5, 6, 7]) (toy_args 10 2) toy_world))) = [1, 2, 3] \<and>
   last (trace (snd (main_run (toy_deps [5, 6, 7]) (toy_args 10 2) toy_world))) = EvStop 3"
proof -
  let ?R = "main_run (toy_deps [5, 6, 7]) (toy_args 10 2) toy_world"
  have run: "?R = (EarlyStopped, snd ?R)"
    by (simp add: toy_defs upt_conv_Cons)
  have p: "args_patience (toy_args 10 2) = 2" by (simp add: toy_args_def)
  have vl: "take 3 (map rec_val_loss (history (snd ?R))) = [Fin 5, Fin 6, Fin 7]"
    by (simp add: toy_defs upt_conv_Cons)
  note T = early_stopping_at_epoch_boundary[of "toy_deps [5, 6, 7]" "toy_args 10 2" toy_world
      EarlyStopped "snd ?R"]
  have ep: "map rec_epoch (history (snd ?R)) = [1, 2, 3]" using T run p vl by blast
  have ls: "last (trace (snd ?R)) = EvStop (length (history (snd ?R)))" using T run by blast
  have "length (map rec_epoch (history (snd ?R))) = length [1, 2, 3 :: nat]"
    by (simp only: ep)
  then have "length (history (snd ?R)) = 3" by simp
  then have "last (trace (snd ?R)) = EvStop 3" using ls by simp
  then show ?thesis using run p vl ep by blast
qed

section \<open>Facts about the Solver\<close>

lemma quiet_simps:
  "quiet []" "quiet (xs @ ys) \<longleftrightarrow> quiet xs \<and> quiet ys"
  by (auto simp: quiet_def saves_def)

lemma s_train_step_frame:
  "s_frame (snd (s_train_step X A b st)) = s_frame st \<and>
   (\<exists>evs. s_trace (snd (s_train_step X A b st)) = s_trace st @ evs \<and> quiet evs)"
  by (auto simp: s_train_step_def s_frame_def Let_def quiet_def saves_def
           split: sum.splits prod.splits)

lemma s_train_batches_frame:
  "s_frame (snd (s_train_batches X A bs l st)) = s_frame st \<and>
   (\<exists>evs. s_trace (snd (s_train_batches X A bs l st)) = s_trace st @ evs \<and> quiet evs)"
proof (induction bs arbitrary: l st)
  case Nil
  then show ?case by (simp add: quiet_simps)
next
  case (Cons b bs)
  obtain r st1 where ts: "s_train_step X A b st = (r, st1)" by (cases "s_train_step X A b st")
  from s_train_step_frame[of X A b st] ts obtain m1 where
    f1: "s_frame st1 = s_frame st" and t1: "s_trace st1 = s_trace st @ m1" "quiet m1" by auto
  show ?case
  proof (cases r)
    case (Inl e)
    then show ?thesis using ts f1 t1 by auto
  next
    case (Inr loss)
    from Cons.IH[of "flt_add l loss" st1] obtain m2 where
      f2: "s_frame (snd (s_train_batches X A bs (flt_add l loss) st1)) = s_frame st1"
      and t2: "s_trace (snd (s_train_batches X A bs (flt_add l loss) st1)) = s_trace st1 @ m2" "quiet m2"
      by auto
    have "quiet (m1 @ m2)" using t1 t2 by (simp add: quiet_simps)
    then show ?thesis using ts Inr f1 f2 t1 t2 by auto
  qed
qed

lemma train_epoch_frame:
  "s_frame (snd (train_epoch X A bs st)) = s_frame st \<and>
   (\<exists>evs. s_trace (snd (train_epoch X A bs st)) = s_trace st @ evs \<and> quiet evs)"
proof -
  let ?st0 = "st\<lparr>s_model := (s_model st)\<lparr>training := True\<rparr>\<rparr>"
  obtain r st1 where tb: "s_train_batches X A bs (Fin 0) ?st0 = (r, st1)"
    by (cases "s_train_batches X A bs (Fin 0) ?st0")
  from s_train_batches_frame[of X A bs "Fin 0" ?st0] tb obtain m where
    "s_frame st1 = s_frame ?st0" "s_trace st1 = s_trace ?st0 @ m" "quiet m" by auto
  moreover have "s_frame ?st0 = s_frame st" "s_trace ?st0 = s_trace st" by (simp_all add: s_frame_def)
  moreover have "snd (train_epoch X A bs st) = st1"
    using tb by (simp add: train_epoch_def split: sum.splits)
  ultimately show ?thesis by auto
qed

lemma s_val_batches_frame:
  "s_frame (snd (s_val_batches X bs l st)) = s_frame st \<and>
   s_model (snd (s_val_batches X bs l st)) = s_model st \<and>
   (\<exists>evs. s_trace (snd (s_val_batches X bs l st)) = s_trace st @ evs \<and> quiet evs)"
proof (induction bs arbitrary: l st)
  case Nil
  then show ?case by (simp add: quiet_simps)
next
  case (Cons b bs)
  let ?w = "s_model st"
  let ?c = "s_criterion st (concat (drop 1 (s_forward X (training ?w) (params ?w) (b_src b) (b_trg b))))
              (concat (drop 1 (b_trg b)))"
  show ?case
  proof (cases ?c)
    case (Inl e)
    have "quiet [EvValForward]" by (simp add: quiet_def saves_def)
    then show ?thesis using Inl by (auto simp: Let_def s_frame_def)
  next
    case (Inr loss)
    let ?st1 = "st\<lparr>s_trace := s_trace st @ [EvValForward, EvValLoss]\<rparr>"
    from Cons.IH[of "flt_add l loss" ?st1] obtain m2 where
      f2: "s_frame (snd (s_val_batches X bs (flt_add l loss) ?st1)) = s_frame ?st1"
      and m2: "s_model (snd (s_val_batches X bs (flt_add l loss) ?st1)) = s_model ?st1"
      and t2: "s_trace (snd (s_val_batches X bs (flt_add l loss) ?st1)) = s_trace ?st1 @ m2" "quiet m2"
      by auto
    have q: "quiet ([EvValForward, EvValLoss] @ m2)" using t2 by (simp add: quiet_def saves_def)
    have e: "s_val_batches X (b # bs) l st = s_val_batches X bs (flt_add l loss) ?st1"
      using Inr by (simp add: Let_def)
    have "s_frame ?st1 = s_frame st" by (simp add: s_frame_def)
    then show ?thesis unfolding e using f2 m2 t2 q by auto
  qed
qed

lemma validate_frame:
  "s_frame (snd (validate X bs st)) = s_frame st \<and>
   s_model (snd (validate X bs st)) = (s_model st)\<lparr>training := False\<rparr> \<and>
   (\<exists>evs. s_trace (snd (validate X bs st)) = s_trace st @ evs \<and> quiet evs)"
proof -
  let ?st0 = "st\<lparr>s_model := (s_model st)\<lparr>training := False\<rparr>\<rparr>"
  obtain r st1 where vb: "s_val_batches X bs (Fin 0) ?st0 = (r, st1)"
    by (cases "s_val_batches X bs (Fin 0) ?st0")
  from s_val_batches_frame[of X bs "Fin 0" ?st0] vb obtain m where
    "s_frame st1 = s_frame ?st0" "s_model st1 = s_model ?st0"
    "s_trace st1 = s_trace ?st0 @ m" "quiet m" by auto
  moreover have "s_frame ?st0 = s_frame st" "s_trace ?st0 = s_trace st" by (simp_all add: s_frame_def)
  moreover have "snd (validate X bs st) = st1"
    using vb by (simp add: validate_def split: sum.splits)
  ultimately show ?thesis by auto
qed

lemma s_frame_cfg: "s_frame a = s_frame b \<Longrightarrow> s_cfg a = s_cfg b"
  by (simp add: s_frame_def s_cfg_def)

lemma s_checkpoint_appends:
  "\<exists>rc. s_appends e st (s_checkpoint e v st) rc
           (if flt_lt v (s_best_val_loss st) then [EvSave e] else []) \<and> sr_val_loss rc = v"
proof (cases "flt_lt v (s_best_val_loss st)")
  case True
  let ?rc = "\<lparr>sr_epoch = e, sr_val_loss = v, sr_saved = True, sr_best = v, sr_best_epoch = e\<rparr>"
  show ?thesis
    by (rule exI[where x = ?rc])
       (use True in \<open>simp add: s_appends_def s_checkpoint_def s_cfg_def saves_def\<close>)
next
  case False
  let ?rc = "\<lparr>sr_epoch = e, sr_val_loss = v, sr_saved = False, sr_best = s_best_val_loss st,
              sr_best_epoch = best_val_loss_epoch st\<rparr>"
  show ?thesis
    by (rule exI[where x = ?rc])
       (use False in \<open>simp add: s_appends_def s_checkpoint_def s_cfg_def saves_def\<close>)
qed

lemma s_epoch_body_cases:
  assumes "s_epoch_body X A e st = (r, st')"
  shows "(s_frame st' = s_frame st \<and> (\<exists>err. r = Raise err) \<and>
          (\<exists>evs. s_trace st' = s_trace st @ evs \<and> quiet evs))
       \<or> (r = Next \<and> (\<exists>rc evs. s_appends e st st' rc evs))"
proof -
  let ?st0 = "st\<lparr>s_trace := s_trace st @ [EvEpoch e]\<rparr>"
  have f0: "s_frame ?st0 = s_frame st" by (simp add: s_frame_def)
  obtain tr st1 where te: "train_epoch X A (s_train_iterator st e) ?st0 = (tr, st1)"
    by (cases "train_epoch X A (s_train_iterator st e) ?st0")
  from train_epoch_frame[of X A "s_train_iterator st e" ?st0] te obtain m1 where
    f1: "s_frame st1 = s_frame st" and t1: "s_trace st1 = s_trace st @ [EvEpoch e] @ m1" "quiet m1"
    using f0 by auto
  have q1: "quiet ([EvEpoch e] @ m1)" using t1 by (simp add: quiet_def saves_def)
  show ?thesis
  proof (cases tr)
    case (Inl err)
    then have "r = Raise err" "st' = st1"
      using assms te by (auto simp: s_epoch_body_def)
    then show ?thesis using f1 t1(1) q1 by blast
  next
    case (Inr train_loss)
    note tr = this
    obtain vr st2 where va: "validate X (s_val_iterator st1 e) st1 = (vr, st2)"
      by (cases "validate X (s_val_iterator st1 e) st1")
    from validate_frame[of X "s_val_iterator st1 e" st1] va obtain m2 where
      f2: "s_frame st2 = s_frame st1" and t2: "s_trace st2 = s_trace st1 @ m2" "quiet m2" by auto
    have q2: "quiet (([EvEpoch e] @ m1) @ m2)" using q1 t2 by (simp only: quiet_simps)
    have t2': "s_trace st2 = s_trace st @ (([EvEpoch e] @ m1) @ m2)" using t1 t2 by simp
    show ?thesis
    proof (cases vr)
      case (Inl err)
      then have "r = Raise err" "st' = st2"
        using assms te tr va by (auto simp: s_epoch_body_def)
      moreover have "s_frame st2 = s_frame st" using f1 f2 by simp
      ultimately show ?thesis using t2' q2 by blast
    next
      case (Inr val_loss)
      then have r: "r = Next" and st': "st' = s_checkpoint e val_loss st2"
        using assms te tr va by (auto simp: s_epoch_body_def)
      from s_checkpoint_appends[of e st2 val_loss] obtain rc where
        a: "s_appends e st2 (s_checkpoint e val_loss st2) rc
              (if flt_lt val_loss (s_best_val_loss st2) then [EvSave e] else [])" by blast
      let ?sv = "(if flt_lt val_loss (s_best_val_loss st2) then [EvSave e] else [])"
      have f: "s_frame st2 = s_frame st" using f1 f2 by simp
      then have b: "s_best_val_loss st2 = s_best_val_loss st" "s_history st2 = s_history st"
        by (simp_all add: s_frame_def)
      have c: "s_cfg st2 = s_cfg st" using f by (rule s_frame_cfg)
      have sv: "saves ((([EvEpoch e] @ m1) @ m2) @ ?sv) = saves ?sv"
        "EvMetadata \<notin> set ((([EvEpoch e] @ m1) @ m2) @ ?sv)"
        using q2 by (auto simp: quiet_def saves_def)
      have "s_appends e st st' rc ((([EvEpoch e] @ m1) @ m2) @ ?sv)"
        using a b c t2' sv unfolding s_appends_def st' by simp
      then show ?thesis using r by blast
    qed
  qed
qed

lemma saves_append: "saves (xs @ ys) = saves xs @ saves ys"
  by (simp add: saves_def)

lemma s_epoch_loop_extends:
  assumes "s_epoch_loop X A es st = (out, st')"
  shows "\<exists>rs evs. s_extends es st out st' rs evs"
  using assms
proof (induction es arbitrary: st)
  case Nil
  then have "s_extends [] st out st' [] []" by (auto simp: s_extends_def saves_def)
  then show ?case by blast
next
  case (Cons e es)
  obtain r st1 where eb: "s_epoch_body X A e st = (r, st1)" by (cases "s_epoch_body X A e st")
  from s_epoch_body_cases[OF eb]
  consider (raised) err evs where "s_frame st1 = s_frame st" "r = Raise err"
      "s_trace st1 = s_trace st @ evs" "quiet evs"
    | (decided) rc evs where "r = Next" "s_appends e st st1 rc evs" by blast
  then show ?case
  proof cases
    case raised
    then have o: "out = Raised err" "st' = st1" using Cons.prems eb by auto
    have "s_history st1 = s_history st" "s_best_val_loss st1 = s_best_val_loss st"
      using raised(1) by (simp_all add: s_frame_def)
    moreover have "s_cfg st1 = s_cfg st" using raised(1) by (rule s_frame_cfg)
    ultimately have "s_extends (e # es) st out st' [] evs"
      using o raised(3,4) by (simp add: s_extends_def quiet_def)
    then show ?thesis by blast
  next
    case decided
    note d = decided(2)[unfolded s_appends_def]
    have rec: "s_epoch_loop X A es st1 = (out, st')" using Cons.prems eb decided(1) by simp
    from Cons.IH[OF rec] obtain rs evs2 where "s_extends es st1 out st' rs evs2" by blast
    note x = this[unfolded s_extends_def]
    have 1: "s_history st' = s_history st @ rc # rs" using x d by simp
    have 2: "s_chain (s_best_val_loss st) (rc # rs)"
    proof -
      have "s_chain (sr_best rc) rs" using x d by metis
      moreover have "s_chain (s_best_val_loss st) [rc]" using d by blast
      ultimately show ?thesis by simp
    qed
    have 3: "map sr_epoch (rc # rs) = take (length (rc # rs)) (e # es)" using x d by simp
    have 4: "s_best_val_loss st' = last (s_best_val_loss st # map sr_best (rc # rs))"
      using x d by simp
    have 5: "s_cfg st' = s_cfg st" using x d by metis
    have 6: "out \<noteq> EarlyStopped" "out = Exhausted \<longrightarrow> length (rc # rs) = length (e # es)"
      using x by simp_all
    have 7: "s_trace st' = s_trace st @ (evs @ evs2)" using x d by simp
    have 8: "EvMetadata \<notin> set (evs @ evs2)" using x d by simp
    have sv1: "saves evs = (if sr_saved rc then [e] else [])" using d by blast
    have sv2: "saves evs2 = map sr_epoch (filter sr_saved rs)" using x by blast
    have ep: "sr_epoch rc = e" using d by blast
    have 9: "saves (evs @ evs2) = map sr_epoch (filter sr_saved (rc # rs))"
      unfolding saves_append sv1 sv2 using ep by simp
    have "s_extends (e # es) st out st' (rc # rs) (evs @ evs2)"
      unfolding s_extends_def using 1 2 3 4 5 6 7 8 9 by blast
    then show ?thesis by blast
  qed
qed

lemma upt_from_zero:
  assumes "map f rs = take (length rs) [0 ..< m]"
  shows "map f rs = [0 ..< length rs]"
proof -
  have "length (map f rs) = length (take (length rs) [0 ..< m])" using assms by simp
  then have "0 + length rs \<le> m" by simp
  then have "take (length rs) [0 ..< m] = [0 ..< 0 + length rs]" by (rule take_upt)
  then show ?thesis using assms by simp
qed

lemma solver_run_facts:
  assumes "solver_run X A d w = (out, st)"
  shows "s_chain PInf (s_history st) \<and>
         map sr_epoch (s_history st) = [0 ..< length (s_history st)] \<and>
         s_best_val_loss st = last (PInf # map sr_best (s_history st)) \<and>
         model_dict_pkl st = model_dict_pkl (init_training d w) \<and>
         out \<noteq> EarlyStopped \<and>
         (out = Exhausted \<longrightarrow> length (s_history st) = nat (s_n_epochs A)) \<and>
         (\<exists>evs. s_trace st = EvMetadata # evs \<and> EvMetadata \<notin> set evs \<and>
                saves evs = map sr_epoch (filter sr_saved (s_history st)))"
proof -
  let ?st0 = "(init_training d w)\<lparr>s_best_val_loss := PInf, best_val_loss_epoch := 0\<rparr>"
  have run: "s_epoch_loop X A [0 ..< nat (s_n_epochs A)] ?st0 = (out, st)"
    using assms by (simp add: solver_run_def train_def)
  from s_epoch_loop_extends[OF run] obtain rs evs where
    "s_extends [0 ..< nat (s_n_epochs A)] ?st0 out st rs evs" by blast
  note x = this[unfolded s_extends_def]
  have i: "s_history ?st0 = []" "s_best_val_loss ?st0 = PInf" "s_trace ?st0 = [EvMetadata]"
    "s_cfg ?st0 = s_cfg (init_training d w)"
    by (simp_all add: init_training_def Let_def s_cfg_def)
  have h: "s_history st = rs" using x i by simp
  have c: "model_dict_pkl st = model_dict_pkl (init_training d w)"
    using x i by (simp add: s_cfg_def)
  have ep: "map sr_epoch rs = [0 ..< length rs]" using x by (intro upt_from_zero) blast
  have tr: "s_trace st = EvMetadata # evs" using x i by simp
  show ?thesis unfolding h using x i c ep tr by auto
qed

section \<open>The best loss as a running minimum\<close>

lemma flt_lt_le: "flt_lt a b \<Longrightarrow> flt_le a b"
  by (cases a; cases b; simp)

lemma flt_le_trans: "flt_le a b \<Longrightarrow> flt_le b c \<Longrightarrow> flt_le a c"
  by (cases a; cases b; cases c; simp)

lemma flt_lt_le_trans: "flt_lt a b \<Longrightarrow> flt_le b c \<Longrightarrow> flt_lt a c"
  by (cases a; cases b; cases c; simp)

lemma flt_lt_irrefl: "\<not> flt_lt a a"
  by (cases a; simp)

lemma flt_le_refl_left: "flt_le a b \<Longrightarrow> flt_le a a"
  by (cases a; cases b; simp)

lemma flt_le_not_lt: "flt_le a b \<Longrightarrow> \<not> flt_lt b a"
  by (cases a; cases b; simp)

lemma policy_chain_decisions:
  "policy_chain L b p rs \<Longrightarrow>
   decision_chain flt_le b (map (\<lambda>r. (rec_val_loss r, rec_saved r, rec_best r)) rs)"
  by (induction rs arbitrary: b p) auto

lemma s_chain_decisions:
  "s_chain b rs \<Longrightarrow>
   decision_chain flt_lt b (map (\<lambda>r. (sr_val_loss r, sr_saved r, sr_best r)) rs)"
  by (induction rs arbitrary: b) auto

lemma decision_chain_min:
  assumes c1: "\<And>v b. cmp v b \<Longrightarrow> flt_le v b" and c2: "\<And>v b. flt_lt v b \<Longrightarrow> cmp v b"
  shows "decision_chain cmp b ts \<Longrightarrow> flt_le b b \<Longrightarrow> b = PInf \<or> b \<in> set seen \<Longrightarrow>
         \<forall>v\<in>set seen. \<not> flt_lt v b \<Longrightarrow>
         best_is_min seen (map (\<lambda>(v, s, b'). (v, b')) ts) \<and>
         (\<forall>x\<in>set (map (\<lambda>(v, s, b'). b') ts). flt_le x b) \<and>
         sorted_wrt (\<lambda>x y. flt_le y x) (map (\<lambda>(v, s, b'). b') ts)"
proof (induction ts arbitrary: b seen)
  case Nil
  then show ?case by simp
next
  case (Cons t ts)
  obtain v s b' where t: "t = (v, s, b')" by (cases t) auto
  from Cons.prems(1) t have s: "s = cmp v b" and b': "b' = (if s then v else b)"
    and ch: "decision_chain cmp b' ts" by auto
  have le: "flt_le b' b" using s b' c1 Cons.prems(2) by auto
  have refl: "flt_le b' b'" using le by (rule flt_le_refl_left)
  have mem: "b' = PInf \<or> b' \<in> set (seen @ [v])" using b' Cons.prems(3) by auto
  have lb: "\<forall>u\<in>set (seen @ [v]). \<not> flt_lt u b'"
  proof
    fix u assume u: "u \<in> set (seen @ [v])"
    show "\<not> flt_lt u b'"
    proof (cases s)
      case True
      then have bv: "b' = v" and vb: "flt_le v b" using b' s c1 by auto
      show ?thesis
      proof (cases "u = v")
        case True
        then show ?thesis using bv flt_lt_irrefl by simp
      next
        case False
        then have "u \<in> set seen" using u by auto
        then have "\<not> flt_lt u b" using Cons.prems(4) by blast
        then show ?thesis using bv vb flt_lt_le_trans by blast
      qed
    next
      case False
      then have bb: "b' = b" and nv: "\<not> flt_lt v b" using b' s c2 by auto
      show ?thesis using u bb nv Cons.prems(4) by auto
    qed
  qed
  have rm: "is_running_min b' (seen @ [v])" unfolding is_running_min_def using mem lb by blast
  from Cons.IH[OF ch refl mem lb]
  have ih: "best_is_min (seen @ [v]) (map (\<lambda>(v, s, b'). (v, b')) ts)"
    "\<forall>x\<in>set (map (\<lambda>(v, s, b'). b') ts). flt_le x b'"
    "sorted_wrt (\<lambda>x y. flt_le y x) (map (\<lambda>(v, s, b'). b') ts)" by blast+
  have all: "\<forall>x\<in>set (map (\<lambda>(v, s, b'). b') (t # ts)). flt_le x b"
    using ih(2) le t flt_le_trans by auto
  show ?case using rm ih all t by simp
qed

lemma nll_toy: "0 < v \<Longrightarrow> nll [0, ln (exp v - 1)] 0 = v"
  by (simp add: nll_def)

lemmas toy_solver_defs = solver_run_def train_def init_training_def s_epoch_body_def
  train_epoch_def validate_def s_checkpoint_def s_train_step_def CrossEntropyLoss_def
  toy_solver_deps_def toy_solver_args_def toy_loaded_def toy_field_def toy_sbatch_def
  toy_world_def Let_def nll_toy

text \<open>
  C9. In both loops the best-loss record never increases from one epoch to the next,
  and after every epoch it is the least of \<open>+inf\<close> and the validation losses observed
  so far in the run; the loop variable holds the value recorded after the last epoch.
\<close>

theorem best_loss_is_running_minimum:
  "(main_run X A w = (out, st) \<longrightarrow>
      best_is_min [] (map (\<lambda>r. (rec_val_loss r, rec_best r)) (history st)) \<and>
      sorted_wrt (\<lambda>x y. flt_le y x) (PInf # map rec_best (history st)) \<and>
      best_val_loss st = last (PInf # map rec_best (history st))) \<and>
   (solver_run Y B d u = (out', st') \<longrightarrow>
      best_is_min [] (map (\<lambda>r. (sr_val_loss r, sr_best r)) (s_history st')) \<and>
      sorted_wrt (\<lambda>x y. flt_le y x) (PInf # map sr_best (s_history st')) \<and>
      s_best_val_loss st' = last (PInf # map sr_best (s_history st')))"
proof (intro conjI impI)
  assume run: "main_run X A w = (out, st)"
  note H = main_run_history[OF run]
  have ch: "policy_chain (args_patience A) PInf 0 (history st)" using H by blast
  have "best_is_min [] (map (\<lambda>(v, s, b'). (v, b'))
            (map (\<lambda>r. (rec_val_loss r, rec_saved r, rec_best r)) (history st))) \<and>
        (\<forall>x\<in>set (map (\<lambda>(v, s, b'). b')
            (map (\<lambda>r. (rec_val_loss r, rec_saved r, rec_best r)) (history st))). flt_le x PInf) \<and>
        sorted_wrt (\<lambda>x y. flt_le y x) (map (\<lambda>(v, s, b'). b')
            (map (\<lambda>r. (rec_val_loss r, rec_saved r, rec_best r)) (history st)))"
    by (rule decision_chain_min[where cmp = flt_le, OF _ _ policy_chain_decisions[OF ch]])
       (simp_all add: flt_lt_le)
  then show "best_is_min [] (map (\<lambda>r. (rec_val_loss r, rec_best r)) (history st))"
    and "sorted_wrt (\<lambda>x y. flt_le y x) (PInf # map rec_best (history st))"
    by (simp_all add: comp_def)
  show "best_val_loss st = last (PInf # map rec_best (history st))" using H by blast
next
  assume run: "solver_run Y B d u = (out', st')"
  note H = solver_run_facts[OF run]
  have ch: "s_chain PInf (s_history st')" using H by blast
  have "best_is_min [] (map (\<lambda>(v, s, b'). (v, b'))
            (map (\<lambda>r. (sr_val_loss r, sr_saved r, sr_best r)) (s_history st'))) \<and>
        (\<forall>x\<in>set (map (\<lambda>(v, s, b'). b')
            (map (\<lambda>r. (sr_val_loss r, sr_saved r, sr_best r)) (s_history st'))). flt_le x PInf) \<and>
        sorted_wrt (\<lambda>x y. flt_le y x) (map (\<lambda>(v, s, b'). b')
            (map (\<lambda>r. (sr_val_loss r, sr_saved r, sr_best r)) (s_history st')))"
    by (rule decision_chain_min[where cmp = flt_lt, OF _ _ s_chain_decisions[OF ch]])
       (simp_all add: flt_lt_le)
  then show "best_is_min [] (map (\<lambda>r. (sr_val_loss r, sr_best r)) (s_history st'))"
    and "sorted_wrt (\<lambda>x y. flt_le y x) (PInf # map sr_best (s_history st'))"
    by (simp_all add: comp_def)
  show "s_best_val_loss st' = last (PInf # map sr_best (s_history st'))" using H by blast
qed

theorem best_loss_is_running_minimum_witness:
  "main_run (toy_deps [5, 3, 4, 2]) (toy_args 4 10) toy_world =
     (Exhausted, snd (main_run (toy_deps [5, 3, 4, 2]) (toy_args 4 10) toy_world)) \<and>
   solver_run (toy_solver_deps [5, 3, 4, 2]) (toy_solver_args 4) toy_loaded toy_world =
     (Exhausted,
      snd (solver_run (toy_solver_deps [5, 3, 4, 2]) (toy_solver_args 4) toy_loaded toy_world)) \<and>
   best_is_min []
     (map (\<lambda>r. (rec_val_loss r, rec_best r))
        (history (snd (main_run (toy_deps [5, 3, 4, 2]) (toy_args 4 10) toy_world)))) \<and>
   map rec_best (history (snd (main_run (toy_deps [5, 3, 4, 2]) (toy_args 4 10) toy_world)))
     = [Fin 5, Fin 3, Fin 3, Fin 2] \<and>
   best_is_min []
     (map (\<lambda>r. (sr_val_loss r, sr_best r))
        (s_history (snd (solver_run (toy_solver_deps [5, 3, 4, 2]) (toy_solver_args 4)
           toy_loaded toy_world)))) \<and>
   map sr_best (s_history (snd (solver_run (toy_solver_deps [5, 3, 4, 2]) (toy_solver_args 4)
           toy_loaded toy_world)))
     = [Fin 5, Fin 3, Fin 3, Fin 2]"
proof -
  let ?M = "main_run (toy_deps [5, 3, 4, 2]) (toy_args 4 10) toy_world"
  let ?S = "solver_run (toy_solver_deps [5, 3, 4, 2]) (toy_solver_args 4) toy_loaded toy_world"
  have m: "?M = (Exhausted, snd ?M)" by (simp add: toy_defs upt_conv_Cons)
  have s: "?S = (Exhausted, snd ?S)" by (simp add: toy_solver_defs upt_conv_Cons)
  have mb: "map rec_best (history (snd ?M)) = [Fin 5, Fin 3, Fin 3, Fin 2]"
    by (simp add: toy_defs upt_conv_Cons)
  have sb: "map sr_best (s_history (snd ?S)) = [Fin 5, Fin 3, Fin 3, Fin 2]"
    by (simp add: toy_solver_defs upt_conv_Cons)
  note T = best_loss_is_running_minimum[of "toy_deps [5, 3, 4, 2]" "toy_args 4 10" toy_world
      Exhausted "snd ?M" "toy_solver_deps [5, 3, 4, 2]" "toy_solver_args 4" toy_loaded toy_world
      Exhausted "snd ?S"]
  show ?thesis using T m s mb sb by blast
qed

section \<open>\<open>Solver.train\<close> runs every epoch\<close>

lemma train_extends:
  assumes "train X A st0 = (out, st)"
  shows "out \<noteq> EarlyStopped"
    and "out = Exhausted \<Longrightarrow>
         map sr_epoch (drop (length (s_history st0)) (s_history st)) = [0 ..< nat (s_n_epochs A)]"
proof -
  let ?s0 = "st0\<lparr>s_best_val_loss := PInf, best_val_loss_epoch := 0\<rparr>"
  from s_epoch_loop_extends[OF assms[unfolded train_def]] obtain rs evs where
    "s_extends [0 ..< nat (s_n_epochs A)] ?s0 out st rs evs" by blast
  note x = this[unfolded s_extends_def]
  show "out \<noteq> EarlyStopped" using x by blast
  show "map sr_epoch (drop (length (s_history st0)) (s_history st)) = [0 ..< nat (s_n_epochs A)]"
    if "out = Exhausted"
  proof -
    have l: "length rs = length [0 ..< nat (s_n_epochs A)]" using x that by blast
    have h: "s_history st = s_history st0 @ rs" using x by simp
    have "map sr_epoch rs = take (length rs) [0 ..< nat (s_n_epochs A)]" using x by blast
    then have "map sr_epoch rs = [0 ..< nat (s_n_epochs A)]" unfolding l by simp
    then show ?thesis unfolding h by simp
  qed
qed

text \<open>
  C10. \<open>Solver.train\<close> has no early exit: the body of its epoch loop never breaks, the
  loop never stops early, and a call that raises no exception runs the epochs
  \<open>0, ..., n_epochs - 1\<close>, whatever the validation losses are.
\<close>

theorem solver_train_never_stops_early:
  "fst (s_epoch_body X A e s) \<noteq> Break \<and>
   (train X A st0 = (out, st) \<longrightarrow>
      out \<noteq> EarlyStopped \<and>
      (out = Exhausted \<longrightarrow>
         map sr_epoch (drop (length (s_history st0)) (s_history st)) = [0 ..< nat (s_n_epochs A)]))"
proof -
  obtain r s' where eb: "s_epoch_body X A e s = (r, s')" by (cases "s_epoch_body X A e s")
  from s_epoch_body_cases[OF eb] have "r \<noteq> Break" by auto
  then have "fst (s_epoch_body X A e s) \<noteq> Break" using eb by simp
  then show ?thesis using train_extends[of X A st0 out st] by blast
qed

theorem solver_train_never_stops_early_witness:
  "train (toy_solver_deps [1, 2, 2, 2, 2, 2, 2, 2, 2, 2, 2, 2]) (toy_solver_args 12)
      (init_training toy_loaded toy_world) =
     (Exhausted,
      snd (train (toy_solver_deps [1, 2, 2, 2, 2, 2, 2, 2, 2, 2, 2, 2]) (toy_solver_args 12)
             (init_training toy_loaded toy_world))) \<and>
   map sr_saved (s_history
      (snd (train (toy_solver_deps [1, 2, 2, 2, 2, 2, 2, 2, 2, 2, 2, 2]) (toy_solver_args 12)
             (init_training toy_loaded toy_world)))) =
     [True, False, False, False, False, False, False, False, False, False, False, False] \<and>
   map sr_epoch (s_history
      (snd (train (toy_solver_deps [1, 2, 2, 2, 2, 2, 2, 2, 2, 2, 2, 2]) (toy_solver_args 12)
             (init_training toy_loaded toy_world)))) = [0 ..< 12]"
proof -
  let ?X = "toy_solver_deps [1, 2, 2, 2, 2, 2, 2, 2, 2, 2, 2, 2]"
  let ?T = "train ?X (toy_solver_args 12) (init_training toy_loaded toy_world)"
  have r: "?T = (Exhausted, snd ?T)"
    by (simp add: toy_solver_defs upt_conv_Cons)
  have f: "map sr_saved (s_history (snd ?T)) =
     [True, False, False, False, False, False, False, False, False, False, False, False]"
    by (simp add: toy_solver_defs upt_conv_Cons)
  have h0: "length (s_history (init_training toy_loaded toy_world)) = 0"
    by (simp add: init_training_def Let_def)
  have n: "nat (s_n_epochs (toy_solver_args 12)) = 12" by (simp add: toy_solver_args_def)
  from solver_train_never_stops_early[of ?X "toy_solver_args 12" 0
      "init_training toy_loaded toy_world" "init_training toy_loaded toy_world" Exhausted "snd ?T"] r
  have "map sr_epoch (drop (length (s_history (init_training toy_loaded toy_world)))
          (s_history (snd ?T))) = [0 ..< nat (s_n_epochs (toy_solver_args 12))]" by blast
  then have "map sr_epoch (s_history (snd ?T)) = [0 ..< 12]" unfolding h0 n by simp
  then show ?thesis using r f by blast
qed

section \<open>Writes of the parameter file\<close>

lemma train_step_saves: "saves (trace (snd (train_step X A b st))) = saves (trace st)"
  by (auto simp: train_step_def Let_def saves_def split: sum.splits prod.splits)

lemma train_batches_saves:
  "saves (trace (snd (train_batches X A bs acc st))) = saves (trace st)"
proof (induction bs arbitrary: acc st)
  case Nil
  then show ?case by simp
next
  case (Cons b bs)
  obtain l t s where acc: "acc = (l, t, s)" by (cases acc) auto
  obtain r st1 where ts: "train_step X A b st = (r, st1)" by (cases "train_step X A b st")
  have s1: "saves (trace st1) = saves (trace st)" using train_step_saves[of X A b st] ts by simp
  show ?case unfolding acc using ts s1 by (simp add: Let_def Cons.IH split: sum.splits)
qed

lemma saves_val_events: "saves [EvValForward, EvValLoss] = []" "saves [EvValForward] = []"
  by (simp_all add: saves_def)

lemma val_batches_saves:
  "saves (trace (snd (val_batches X A bs acc st))) = saves (trace st)"
proof (induction bs arbitrary: acc st)
  case Nil
  then show ?case by simp
next
  case (Cons b bs)
  obtain l t s where acc: "acc = (l, t, s)" by (cases acc) auto
  show ?case unfolding acc
    by (simp add: Let_def Cons.IH saves_append saves_val_events split: sum.splits prod.splits)
qed

lemma checkpoint_policy_saves:
  "saves (trace (snd (checkpoint_policy A e v st))) =
     saves (trace st) @ (if flt_le v (best_val_loss st) then [e] else [])"
  by (simp add: checkpoint_policy_def Let_def saves_def)

lemma epoch_body_saves:
  assumes "epoch_body X A e st = (r, st')"
  shows "saves (trace st') = saves (trace st) @
           map rec_epoch (filter rec_saved (drop (length (history st)) (history st')))"
proof -
  define st1 where "st1 = st\<lparr>model := (model st)\<lparr>training := True\<rparr>, trace := trace st @ [EvEpoch e]\<rparr>"
  obtain tr st2 where tb: "train_batches X A (train_iterator A e) (Fin 0, 0, 0) st1 = (tr, st2)"
    by (cases "train_batches X A (train_iterator A e) (Fin 0, 0, 0) st1")
  have f2: "history st2 = history st" "best_val_loss st2 = best_val_loss st"
    using train_batches_policy[of X A "train_iterator A e" "(Fin 0, 0, 0)" st1] tb
    by (simp_all add: st1_def)
  have s2: "saves (trace st2) = saves (trace st)"
    using train_batches_saves[of X A "train_iterator A e" "(Fin 0, 0, 0)" st1] tb
    by (simp add: st1_def saves_def)
  define st3 where "st3 = st2\<lparr>model := (model st2)\<lparr>training := False\<rparr>\<rparr>"
  obtain vr st4 where vb: "val_batches X A (val_iterator A e) (Fin 0, 0, 0) st3 = (vr, st4)"
    by (cases "val_batches X A (val_iterator A e) (Fin 0, 0, 0) st3")
  have f4: "history st4 = history st" "best_val_loss st4 = best_val_loss st"
    using val_batches_frame[of X A "val_iterator A e" "(Fin 0, 0, 0)" st3] vb f2
    by (simp_all add: st3_def)
  have s4: "saves (trace st4) = saves (trace st)"
    using val_batches_saves[of X A "val_iterator A e" "(Fin 0, 0, 0)" st3] vb s2
    by (simp add: st3_def)
  show ?thesis
  proof (cases tr)
    case (Inl err)
    then have "st' = st2" using assms tb by (auto simp: epoch_body_def st1_def Let_def)
    then show ?thesis using f2 s2 by simp
  next
    case (Inr acc)
    note tr = this
    show ?thesis
    proof (cases "val_iterator A e = []")
      case True
      then have "st' = st3" using assms tb tr by (auto simp: epoch_body_def st1_def st3_def Let_def)
      then show ?thesis using f2 s2 by (simp add: st3_def)
    next
      case False
      note ne = this
      show ?thesis
      proof (cases vr)
        case (Inl err)
        then have "st' = st4" using assms tb tr ne vb
          by (auto simp: epoch_body_def st1_def st3_def Let_def)
        then show ?thesis using f4 s4 by simp
      next
        case (Inr vacc)
        obtain v toks seqs where vacc: "vacc = (v, toks, seqs)" by (cases vacc) auto
        obtain r5 st5 where cp: "checkpoint_policy A e v st4 = (r5, st5)"
          by (cases "checkpoint_policy A e v st4")
        have eb: "epoch_body X A e st =
            (case r5 of Next \<Rightarrow> if toks = 0 \<or> seqs = 0 then (Raise ZeroDivisionError, st5) else (Next, st5)
             | _ \<Rightarrow> (r5, st5))"
          using tb tr ne vb Inr vacc cp
          by (simp add: epoch_body_def st1_def st3_def Let_def split: step.splits)
        have st': "st' = st5" using eb assms by (auto split: step.splits if_splits)
        from checkpoint_policy_rec[OF cp, of ZeroDivisionError] obtain rc where
          rc: "history st5 = history st4 @ [rc]" "rec_epoch rc = e"
              "policy_chain (args_patience A) (best_val_loss st4) (patience st4) [rc]" by blast
        have sv: "rec_saved rc = flt_le (rec_val_loss rc) (best_val_loss st4)" using rc(3) by simp
        have vv: "rec_val_loss rc = v"
          using checkpoint_policy_rec[OF cp, of ZeroDivisionError] rc(1) by auto
        have "saves (trace st5) = saves (trace st4) @ (if flt_le v (best_val_loss st4) then [e] else [])"
          using checkpoint_policy_saves[of A e v st4] cp by simp
        then show ?thesis unfolding st' using rc(1,2) sv vv f4 s4 by simp
      qed
    qed
  qed
qed

lemma epoch_loop_saves:
  assumes "epoch_loop X A es st = (out, st')"
  shows "saves (trace st') = saves (trace st) @
           map rec_epoch (filter rec_saved (drop (length (history st)) (history st')))"
  using assms
proof (induction es arbitrary: st)
  case Nil
  then show ?case by auto
next
  case (Cons e es)
  obtain r st1 where eb: "epoch_body X A e st = (r, st1)" by (cases "epoch_body X A e st")
  note s1 = epoch_body_saves[OF eb]
  show ?case
  proof (cases r)
    case Next
    then have rec: "epoch_loop X A es st1 = (out, st')" using Cons.prems eb by simp
    from epoch_body_cases[OF eb] Next obtain rc where "body_appends A e st r st1 rc" by auto
    then have h1: "history st1 = history st @ [rc]" by (simp add: body_appends_def)
    from epoch_loop_history[OF rec] obtain rs where rs: "history st' = history st1 @ rs" by blast
    have d: "drop (length (history st)) (history st') = rc # rs"
      and d1: "drop (length (history st1)) (history st') = rs"
      and d0: "drop (length (history st)) (history st1) = [rc]"
      using rs h1 by simp_all
    show ?thesis using Cons.IH[OF rec] s1 unfolding d d1 d0 by simp
  next
    case Break
    then have "st' = st1" using Cons.prems eb by auto
    then show ?thesis using s1 by simp
  next
    case (Raise err)
    then have "st' = st1" using Cons.prems eb by auto
    then show ?thesis using s1 by simp
  qed
qed

lemma main_run_saves:
  assumes "main_run X A w = (out, st)"
  shows "saves (trace st) = map rec_epoch (filter rec_saved (history st))"
  using epoch_loop_saves[OF assms[unfolded main_run_def]]
  by (simp add: main_init_def saves_def)

lemma s_checkpoint_saves:
  "saves (s_trace (s_checkpoint e v s)) =
     saves (s_trace s) @ (if flt_lt v (s_best_val_loss s) then [e] else [])"
  by (simp add: s_checkpoint_def saves_def)

lemma solver_run_saves:
  assumes "solver_run Y B d u = (out, st)"
  shows "saves (s_trace st) = map sr_epoch (filter sr_saved (s_history st))"
proof -
  from solver_run_facts[OF assms] obtain evs where
    "s_trace st = EvMetadata # evs" "saves evs = map sr_epoch (filter sr_saved (s_history st))"
    by blast
  then show ?thesis by (simp add: saves_def)
qed

text \<open>The files themselves: what a decision, an epoch and a run leave in them.\<close>

lemma checkpoint_policy_file:
  "model_pkl (snd (checkpoint_policy A e v st)) =
     (if flt_le v (best_val_loss st) then Some (params (model st)) else model_pkl st) \<and>
   model (snd (checkpoint_policy A e v st)) = model st"
  by (simp add: checkpoint_policy_def Let_def)

lemma epoch_body_file:
  assumes "epoch_body X A e st = (r, st')"
  shows "(saves (trace st') = saves (trace st) \<and> model_pkl st' = model_pkl st) \<or>
         (saves (trace st') = saves (trace st) @ [e] \<and> model_pkl st' = Some (params (model st')))"
proof -
  define st1 where "st1 = st\<lparr>model := (model st)\<lparr>training := True\<rparr>, trace := trace st @ [EvEpoch e]\<rparr>"
  obtain tr st2 where tb: "train_batches X A (train_iterator A e) (Fin 0, 0, 0) st1 = (tr, st2)"
    by (cases "train_batches X A (train_iterator A e) (Fin 0, 0, 0) st1")
  have f2: "model_pkl st2 = model_pkl st"
    using train_batches_policy[of X A "train_iterator A e" "(Fin 0, 0, 0)" st1] tb
    by (simp_all add: st1_def)
  have s2: "saves (trace st2) = saves (trace st)"
    using train_batches_saves[of X A "train_iterator A e" "(Fin 0, 0, 0)" st1] tb
    by (simp add: st1_def saves_def)
  define st3 where "st3 = st2\<lparr>model := (model st2)\<lparr>training := False\<rparr>\<rparr>"
  obtain vr st4 where vb: "val_batches X A (val_iterator A e) (Fin 0, 0, 0) st3 = (vr, st4)"
    by (cases "val_batches X A (val_iterator A e) (Fin 0, 0, 0) st3")
  have f4: "model_pkl st4 = model_pkl st"
    using val_batches_frame[of X A "val_iterator A e" "(Fin 0, 0, 0)" st3] vb f2
    by (simp_all add: st3_def)
  have s4: "saves (trace st4) = saves (trace st)"
    using val_batches_saves[of X A "val_iterator A e" "(Fin 0, 0, 0)" st3] vb s2
    by (simp add: st3_def)
  show ?thesis
  proof (cases tr)
    case (Inl err)
    then have "st' = st2" using assms tb by (auto simp: epoch_body_def st1_def Let_def)
    then show ?thesis using f2 s2 by simp
  next
    case (Inr acc)
    note tr = this
    show ?thesis
    proof (cases "val_iterator A e = []")
      case True
      then have "st' = st3" using assms tb tr by (auto simp: epoch_body_def st1_def st3_def Let_def)
      then show ?thesis using f2 s2 by (simp add: st3_def)
    next
      case False
      note ne = this
      show ?thesis
      proof (cases vr)
        case (Inl err)
        then have "st' = st4" using assms tb tr ne vb
          by (auto simp: epoch_body_def st1_def st3_def Let_def)
        then show ?thesis using f4 s4 by simp
      next
        case (Inr vacc)
        obtain v toks seqs where vacc: "vacc = (v, toks, seqs)" by (cases vacc) auto
        obtain r5 st5 where cp: "checkpoint_policy A e v st4 = (r5, st5)"
          by (cases "checkpoint_policy A e v st4")
        have eb: "epoch_body X A e st =
            (case r5 of Next \<Rightarrow> if toks = 0 \<or> seqs = 0 then (Raise ZeroDivisionError, st5) else (Next, st5)
             | _ \<Rightarrow> (r5, st5))"
          using tb tr ne vb Inr vacc cp
          by (simp add: epoch_body_def st1_def st3_def Let_def split: step.splits)
        have st': "st' = st5" using eb assms by (auto split: step.splits if_splits)
        have sv: "saves (trace st5) = saves (trace st4) @ (if flt_le v (best_val_loss st4) then [e] else [])"
          using checkpoint_policy_saves[of A e v st4] cp by simp
        have fl: "model_pkl st5 =
            (if flt_le v (best_val_loss st4) then Some (params (model st4)) else model_pkl st4)"
          and md: "model st5 = model st4"
          using checkpoint_policy_file[of A e v st4] cp by simp_all
        show ?thesis unfolding st' using sv fl md f4 s4 by simp
      qed
    qed
  qed
qed

lemma epoch_loop_file:
  assumes "epoch_loop X A es st = (out, st')"
  shows "(saves (trace st') = saves (trace st) \<and> model_pkl st' = model_pkl st) \<or>
         (\<exists>x xs. saves (trace st') = saves (trace st) @ x # xs \<and> model_pkl st' \<noteq> None)"
  using assms
proof (induction es arbitrary: st)
  case Nil
  then show ?case by auto
next
  case (Cons e es)
  obtain r st1 where eb: "epoch_body X A e st = (r, st1)" by (cases "epoch_body X A e st")
  note b = epoch_body_file[OF eb]
  have b': "(saves (trace st1) = saves (trace st) \<and> model_pkl st1 = model_pkl st) \<or>
         (\<exists>x xs. saves (trace st1) = saves (trace st) @ x # xs \<and> model_pkl st1 \<noteq> None)"
    using b by auto
  show ?case
  proof (cases r)
    case Next
    then have rec: "epoch_loop X A es st1 = (out, st')" using Cons.prems eb by simp
    from Cons.IH[OF rec] b' show ?thesis by force
  next
    case Break
    then have "st' = st1" using Cons.prems eb by auto
    then show ?thesis using b' by simp
  next
    case (Raise err)
    then have "st' = st1" using Cons.prems eb by auto
    then show ?thesis using b' by simp
  qed
qed

lemma main_run_file:
  assumes "main_run X A w = (out, st)"
  shows "(model_pkl st = None) = (saves (trace st) = [])"
proof -
  have i: "saves (trace (main_init w)) = []" "model_pkl (main_init w) = None"
    by (simp_all add: main_init_def saves_def)
  show ?thesis using epoch_loop_file[OF assms[unfolded main_run_def]] unfolding i by auto
qed

lemma s_checkpoint_file:
  "model_pth (s_checkpoint e v st) =
     (if flt_lt v (s_best_val_loss st) then Some (params (s_model st)) else model_pth st) \<and>
   s_model (s_checkpoint e v st) = s_model st"
  by (simp add: s_checkpoint_def)

lemma s_epoch_body_file:
  assumes "s_epoch_body X A e st = (r, st')"
  shows "(saves (s_trace st') = saves (s_trace st) \<and> model_pth st' = model_pth st) \<or>
         (saves (s_trace st') = saves (s_trace st) @ [e] \<and>
          model_pth st' = Some (params (s_model st')))"
proof -
  let ?st0 = "st\<lparr>s_trace := s_trace st @ [EvEpoch e]\<rparr>"
  have f0: "s_frame ?st0 = s_frame st" by (simp add: s_frame_def)
  obtain tr st1 where te: "train_epoch X A (s_train_iterator st e) ?st0 = (tr, st1)"
    by (cases "train_epoch X A (s_train_iterator st e) ?st0")
  from train_epoch_frame[of X A "s_train_iterator st e" ?st0] te obtain m1 where
    f1: "s_frame st1 = s_frame st" and t1: "s_trace st1 = s_trace st @ [EvEpoch e] @ m1" "quiet m1"
    using f0 by auto
  have p1: "model_pth st1 = model_pth st" "s_best_val_loss st1 = s_best_val_loss st"
    using f1 by (simp_all add: s_frame_def)
  have s1: "saves (s_trace st1) = saves (s_trace st)"
    using t1 by (simp add: quiet_def saves_def)
  show ?thesis
  proof (cases tr)
    case (Inl err)
    then have "st' = st1" using assms te by (auto simp: s_epoch_body_def)
    then show ?thesis using p1 s1 by simp
  next
    case (Inr train_loss)
    note tr = this
    obtain vr st2 where va: "validate X (s_val_iterator st1 e) st1 = (vr, st2)"
      by (cases "validate X (s_val_iterator st1 e) st1")
    from validate_frame[of X "s_val_iterator st1 e" st1] va obtain m2 where
      f2: "s_frame st2 = s_frame st1" and t2: "s_trace st2 = s_trace st1 @ m2" "quiet m2" by auto
    have p2: "model_pth st2 = model_pth st" "s_best_val_loss st2 = s_best_val_loss st"
      using f2 p1 by (simp_all add: s_frame_def)
    have s2: "saves (s_trace st2) = saves (s_trace st)"
      using t2 s1 by (simp add: quiet_def saves_append)
    show ?thesis
    proof (cases vr)
      case (Inl err)
      then have "st' = st2" using assms te tr va by (auto simp: s_epoch_body_def)
      then show ?thesis using p2 s2 by simp
    next
      case (Inr val_loss)
      then have st': "st' = s_checkpoint e val_loss st2"
        using assms te tr va by (auto simp: s_epoch_body_def)
      show ?thesis unfolding st'
        using s_checkpoint_file[of e val_loss st2] s_checkpoint_saves[of e val_loss st2] p2 s2
        by simp
    qed
  qed
qed

lemma s_epoch_loop_file:
  assumes "s_epoch_loop X A es st = (out, st')"
  shows "(saves (s_trace st') = saves (s_trace st) \<and> model_pth st' = model_pth st) \<or>
         (\<exists>x xs. saves (s_trace st') = saves (s_trace st) @ x # xs \<and> model_pth st' \<noteq> None)"
  using assms
proof (induction es arbitrary: st)
  case Nil
  then show ?case by auto
next
  case (Cons e es)
  obtain r st1 where eb: "s_epoch_body X A e st = (r, st1)" by (cases "s_epoch_body X A e st")
  note b = s_epoch_body_file[OF eb]
  have b': "(saves (s_trace st1) = saves (s_trace st) \<and> model_pth st1 = model_pth st) \<or>
         (\<exists>x xs. saves (s_trace st1) = saves (s_trace st) @ x # xs \<and> model_pth st1 \<noteq> None)"
    using b by auto
  show ?case
  proof (cases r)
    case Next
    then have rec: "s_epoch_loop X A es st1 = (out, st')" using Cons.prems eb by simp
    from Cons.IH[OF rec] b' show ?thesis by force
  next
    case Break
    then have "st' = st1" using Cons.prems eb by auto
    then show ?thesis using b' by simp
  next
    case (Raise err)
    then have "st' = st1" using Cons.prems eb by auto
    then show ?thesis using b' by simp
  qed
qed

lemma solver_run_file:
  assumes "solver_run X A d w = (out, st)"
  shows "(model_pth st = None) = (saves (s_trace st) = [])"
proof -
  let ?s0 = "(init_training d w)\<lparr>s_best_val_loss := PInf, best_val_loss_epoch := 0\<rparr>"
  have i: "saves (s_trace ?s0) = []" "model_pth ?s0 = None"
    by (simp_all add: init_training_def Let_def saves_def)
  show ?thesis
    using s_epoch_loop_file[OF assms[unfolded solver_run_def train_def]] unfolding i by auto
qed

subsection \<open>The checkpoint decision of train.py\<close>

text \<open>
  C1, as the code has it. An epoch whose validation loss is at most the best loss so far
  persists the model and records the loss as the new best; the patience counter is left
  as it is (nothing in train.py ever resets it). On a run whose validation losses are
  5, 3, 4, 2 the model is persisted at epochs 1, 2 and 4, and the counter after the four
  epochs reads 0, 0, 1, 1.
\<close>

theorem checkpoint_on_improvement:
  "(flt_le val_loss (best_val_loss s) \<longrightarrow>
      fst (checkpoint_policy A e val_loss s) = Next \<and>
      model_pkl (snd (checkpoint_policy A e val_loss s)) = Some (params (model s)) \<and>
      best_val_loss (snd (checkpoint_policy A e val_loss s)) = val_loss \<and>
      patience (snd (checkpoint_policy A e val_loss s)) = patience s) \<and>
   (main_run X A w = (out, st) \<and>
    map rec_val_loss (history st) = [Fin 5, Fin 3, Fin 4, Fin 2] \<longrightarrow>
      saves (trace st) = [1, 2, 4] \<and>
      map rec_patience (history st) = [0, 0, 1, 1])"
proof (intro conjI impI)
  assume "main_run X A w = (out, st) \<and>
    map rec_val_loss (history st) = [Fin 5, Fin 3, Fin 4, Fin 2]"
  then have run: "main_run X A w = (out, st)"
    and vl: "map rec_val_loss (history st) = [Fin 5, Fin 3, Fin 4, Fin 2]" by auto
  from vl obtain r1 r2 r3 r4 where h: "history st = [r1, r2, r3, r4]"
    and v: "rec_val_loss r1 = Fin 5" "rec_val_loss r2 = Fin 3"
           "rec_val_loss r3 = Fin 4" "rec_val_loss r4 = Fin 2"
    by (auto simp: map_eq_Cons_conv)
  from main_run_history[OF run]
  have ch: "policy_chain (args_patience A) PInf 0 [r1, r2, r3, r4]"
    and ep: "map rec_epoch [r1, r2, r3, r4] = [1 ..< Suc (length [r1, r2, r3, r4])]"
    unfolding h by blast+
  have ep': "rec_epoch r1 = 1" "rec_epoch r2 = 2" "rec_epoch r3 = 3" "rec_epoch r4 = 4"
    using ep by (simp_all add: upt_conv_Cons)
  have s1: "rec_saved r1" "rec_best r1 = Fin 5" "rec_patience r1 = 0"
    using ch v by simp_all
  have s2: "rec_saved r2" "rec_best r2 = Fin 3" "rec_patience r2 = 0"
    using ch v s1 by simp_all
  have s3: "\<not> rec_saved r3" "rec_best r3 = Fin 3" "rec_patience r3 = 1"
    using ch v s1 s2 by simp_all
  have s4: "rec_saved r4" "rec_patience r4 = 1"
    using ch v s1 s2 s3 by simp_all
  have "map rec_epoch (filter rec_saved (history st)) = [1, 2, 4]"
    unfolding h using s1 s2 s3 s4 ep' by simp
  then show "saves (trace st) = [1, 2, 4]" using main_run_saves[OF run] by simp
  show "map rec_patience (history st) = [0, 0, 1, 1]"
    unfolding h using s1 s2 s3 s4 by simp
qed (simp_all add: checkpoint_policy_def)

theorem checkpoint_on_improvement_witness:
  "flt_le (Fin 2) (best_val_loss (main_init toy_world)) \<and>
   main_run (toy_deps [5, 3, 4, 2]) (toy_args 4 10) toy_world =
     (Exhausted, snd (main_run (toy_deps [5, 3, 4, 2]) (toy_args 4 10) toy_world)) \<and>
   map rec_val_loss (history (snd (main_run (toy_deps [5, 3, 4, 2]) (toy_args 4 10) toy_world)))
     = [Fin 5, Fin 3, Fin 4, Fin 2] \<and>
   saves (trace (snd (main_run (toy_deps [5, 3, 4, 2]) (toy_args 4 10) toy_world))) = [1, 2, 4] \<and>
   patience (snd (checkpoint_policy (toy_args 4 10) 1 (Fin 2) (main_init toy_world))) = 0"
  using checkpoint_on_improvement[of "Fin 2" "main_init toy_world" "toy_args 4 10" 1
      "toy_deps [5, 3, 4, 2]" toy_world Exhausted
      "snd (main_run (toy_deps [5, 3, 4, 2]) (toy_args 4 10) toy_world)"]
  by (simp add: toy_defs upt_conv_Cons)

text \<open>
  C1 as stated fails: on that run the counter is not back at zero after the fourth
  epoch, although that epoch improved on the best loss.
\<close>

theorem patience_is_never_reset:
  "map rec_val_loss (history (snd (main_run (toy_deps [5, 3, 4, 2]) (toy_args 4 10) toy_world)))
     = [Fin 5, Fin 3, Fin 4, Fin 2] \<and>
   map rec_patience (history (snd (main_run (toy_deps [5, 3, 4, 2]) (toy_args 4 10) toy_world)))
     \<noteq> [0, 0, 1, 0]"
  by (simp add: toy_defs upt_conv_Cons)

subsection \<open>The two checkpoint decisions compared\<close>

lemma flt_le_lt_tie: "(flt_le v b \<noteq> flt_lt v b) = (v = b \<and> v \<noteq> NaN)"
  by (cases v; cases b; auto)

lemma chains_agree:
  "s_chain b rs \<Longrightarrow> policy_chain L b p ms \<Longrightarrow>
   map sr_val_loss rs = map rec_val_loss ms \<Longrightarrow> tie_free b (map rec_val_loss ms) \<Longrightarrow>
   map sr_saved rs = map rec_saved ms"
proof (induction rs arbitrary: b p ms)
  case Nil
  then show ?case by simp
next
  case (Cons r rs)
  from Cons.prems(3) obtain m ms' where ms: "ms = m # ms'"
    and v: "sr_val_loss r = rec_val_loss m" and vs: "map sr_val_loss rs = map rec_val_loss ms'"
    by (cases ms) auto
  let ?v = "rec_val_loss m"
  have nt: "\<not> (?v = b \<and> ?v \<noteq> NaN)"
    and tf: "tie_free (if flt_lt ?v b then ?v else b) (map rec_val_loss ms')"
    using Cons.prems(4) ms by auto
  have eq: "flt_le ?v b = flt_lt ?v b" using nt flt_le_lt_tie[of ?v b] by blast
  have sr: "sr_saved r = flt_lt ?v b" "sr_best r = (if flt_lt ?v b then ?v else b)"
    and sc: "s_chain (sr_best r) rs" using Cons.prems(1) v by auto
  have mr: "rec_saved m = flt_le ?v b" "rec_best m = (if flt_le ?v b then ?v else b)"
    and mc: "policy_chain L (rec_best m) (rec_patience m) ms'" using Cons.prems(2) ms by auto
  have b: "rec_best m = sr_best r" using sr mr eq by simp
  have "map sr_saved rs = map rec_saved ms'"
    using Cons.IH[OF sc mc[unfolded b] vs] tf sr(2) by simp
  then show ?case using ms sr mr eq by simp
qed

lemma map_filter_agree:
  "map P xs = map Q ys \<Longrightarrow> map f xs = map g ys \<Longrightarrow>
   map f (filter P xs) = map g (filter Q ys)"
proof (induction xs arbitrary: ys)
  case Nil
  then show ?case by simp
next
  case (Cons x xs)
  then obtain y ys' where "ys = y # ys'" by (cases ys) auto
  then show ?case using Cons by auto
qed

text \<open>
  C4. \<open>Solver.train\<close> writes the parameter file \<open>model.pth\<close> in an epoch exactly when
  the validation loss is below the best loss so far, train.py writes \<open>model.pkl\<close> exactly
  when the loss is at most the best loss. What is written is the parameters the model
  has at that moment, and an epoch that does not write leaves the file as it was. The
  two comparisons differ exactly when the loss equals the best loss: there the Solver
  keeps the old file and train.py overwrites it. A Solver run and a train.py run that
  observe the same sequence of validation losses, none of them equal to the running
  best, take the same decision in every epoch and write the file at the same epochs
  (the Solver counts epochs from 0, train.py from 1).
\<close>

theorem checkpoint_decisions_differ_on_ties:
  "model_pth (s_checkpoint e v s) =
     (if flt_lt v (s_best_val_loss s) then Some (params (s_model s)) else model_pth s) \<and>
   model_pkl (snd (checkpoint_policy A e v m)) =
     (if flt_le v (best_val_loss m) then Some (params (model m)) else model_pkl m) \<and>
   saves (s_trace (s_checkpoint e v s)) =
     saves (s_trace s) @ (if flt_lt v (s_best_val_loss s) then [e] else []) \<and>
   saves (trace (snd (checkpoint_policy A e v m))) =
     saves (trace m) @ (if flt_le v (best_val_loss m) then [e] else []) \<and>
   ((flt_le v b \<noteq> flt_lt v b) = (v = b \<and> v \<noteq> NaN)) \<and>
   (v \<noteq> NaN \<and> s_best_val_loss s = v \<and> best_val_loss m = v \<longrightarrow>
      model_pth (s_checkpoint e v s) = model_pth s \<and>
      model_pkl (snd (checkpoint_policy A e v m)) = Some (params (model m))) \<and>
   (s_epoch_body Y B i s = (r', s') \<longrightarrow>
      model_pth s' = (if saves (s_trace s') = saves (s_trace s) then model_pth s
                      else Some (params (s_model s')))) \<and>
   (epoch_body X A j m = (r, m') \<longrightarrow>
      model_pkl m' = (if saves (trace m') = saves (trace m) then model_pkl m
                      else Some (params (model m')))) \<and>
   (solver_run Y B d u = (out', st') \<longrightarrow> (model_pth st' = None) = (saves (s_trace st') = [])) \<and>
   (main_run X A w = (out, st) \<longrightarrow> (model_pkl st = None) = (saves (trace st) = [])) \<and>
   (solver_run Y B d u = (out', st') \<and> main_run X A w = (out, st) \<and>
    map sr_val_loss (s_history st') = map rec_val_loss (history st) \<and>
    tie_free PInf (map rec_val_loss (history st)) \<longrightarrow>
      map sr_saved (s_history st') = map rec_saved (history st) \<and>
      map Suc (saves (s_trace st')) = saves (trace st) \<and>
      (model_pth st' = None) = (model_pkl st = None))"
proof (intro conjI impI)
  show "model_pth (s_checkpoint e v s) =
     (if flt_lt v (s_best_val_loss s) then Some (params (s_model s)) else model_pth s)"
    using s_checkpoint_file[of e v s] by blast
  show "model_pkl (snd (checkpoint_policy A e v m)) =
     (if flt_le v (best_val_loss m) then Some (params (model m)) else model_pkl m)"
    using checkpoint_policy_file[of A e v m] by blast
  show "saves (s_trace (s_checkpoint e v s)) =
     saves (s_trace s) @ (if flt_lt v (s_best_val_loss s) then [e] else [])"
    by (rule s_checkpoint_saves)
  show "saves (trace (snd (checkpoint_policy A e v m))) =
     saves (trace m) @ (if flt_le v (best_val_loss m) then [e] else [])"
    by (rule checkpoint_policy_saves)
  show "(flt_le v b \<noteq> flt_lt v b) = (v = b \<and> v \<noteq> NaN)" by (rule flt_le_lt_tie)
next
  assume t: "v \<noteq> NaN \<and> s_best_val_loss s = v \<and> best_val_loss m = v"
  then have lt: "\<not> flt_lt v (s_best_val_loss s)" by (simp add: flt_lt_irrefl)
  from t have le: "flt_le v (best_val_loss m)" by (cases v) auto
  show "model_pth (s_checkpoint e v s) = model_pth s"
    using s_checkpoint_file[of e v s] lt by simp
  show "model_pkl (snd (checkpoint_policy A e v m)) = Some (params (model m))"
    using checkpoint_policy_file[of A e v m] le by simp
next
  assume "s_epoch_body Y B i s = (r', s')"
  from s_epoch_body_file[OF this]
  show "model_pth s' = (if saves (s_trace s') = saves (s_trace s) then model_pth s
                      else Some (params (s_model s')))" by auto
next
  assume "epoch_body X A j m = (r, m')"
  from epoch_body_file[OF this]
  show "model_pkl m' = (if saves (trace m') = saves (trace m) then model_pkl m
                      else Some (params (model m')))" by auto
next
  assume "solver_run Y B d u = (out', st')"
  then show "(model_pth st' = None) = (saves (s_trace st') = [])" by (rule solver_run_file)
next
  assume "main_run X A w = (out, st)"
  then show "(model_pkl st = None) = (saves (trace st) = [])" by (rule main_run_file)
next
  assume a: "solver_run Y B d u = (out', st') \<and> main_run X A w = (out, st) \<and>
    map sr_val_loss (s_history st') = map rec_val_loss (history st) \<and>
    tie_free PInf (map rec_val_loss (history st))"
  then have srun: "solver_run Y B d u = (out', st')" and mrun: "main_run X A w = (out, st)"
    and vs: "map sr_val_loss (s_history st') = map rec_val_loss (history st)"
    and tf: "tie_free PInf (map rec_val_loss (history st))" by blast+
  note S = solver_run_facts[OF srun]
  note M = main_run_history[OF mrun]
  have sc: "s_chain PInf (s_history st')" using S by blast
  have mc: "policy_chain (args_patience A) PInf 0 (history st)" using M by blast
  show fl: "map sr_saved (s_history st') = map rec_saved (history st)"
    using chains_agree[OF sc mc vs tf] .
  have len: "length (s_history st') = length (history st)"
    using arg_cong[OF vs, of length] by simp
  have se: "map sr_epoch (s_history st') = [0 ..< length (s_history st')]" using S by blast
  have me: "map rec_epoch (history st) = [1 ..< Suc (length (history st))]" using M by blast
  have "map (\<lambda>r. Suc (sr_epoch r)) (s_history st') = map Suc (map sr_epoch (s_history st'))"
    by simp
  also have "\<dots> = map Suc [0 ..< length (history st)]" unfolding se len ..
  also have "\<dots> = [Suc 0 ..< Suc (length (history st))]" by (rule map_Suc_upt)
  finally have ep: "map (\<lambda>r. Suc (sr_epoch r)) (s_history st') = map rec_epoch (history st)"
    using me by simp
  have "map Suc (saves (s_trace st')) = map Suc (map sr_epoch (filter sr_saved (s_history st')))"
    using solver_run_saves[OF srun] by simp
  also have "\<dots> = map (\<lambda>r. Suc (sr_epoch r)) (filter sr_saved (s_history st'))" by simp
  also have "\<dots> = map rec_epoch (filter rec_saved (history st))"
    using map_filter_agree[OF fl ep] .
  also have "\<dots> = saves (trace st)" using main_run_saves[OF mrun] by simp
  finally show sv: "map Suc (saves (s_trace st')) = saves (trace st)" .
  have "(saves (s_trace st') = []) = (saves (trace st) = [])"
    using arg_cong[OF sv, of length] by auto
  then show "(model_pth st' = None) = (model_pkl st = None)"
    using solver_run_file[OF srun] main_run_file[OF mrun] by simp
qed

theorem checkpoint_decisions_differ_on_ties_witness:
  "s_best_val_loss
     (snd (solver_run (toy_solver_deps [3]) (toy_solver_args 1) toy_loaded toy_world)) = Fin 3 \<and>
   best_val_loss (snd (main_run (toy_deps [3]) (toy_args 1 10) toy_world)) = Fin 3 \<and>
   model_pth (s_checkpoint 1 (Fin 3)
     (snd (solver_run (toy_solver_deps [3]) (toy_solver_args 1) toy_loaded toy_world))) =
   model_pth (snd (solver_run (toy_solver_deps [3]) (toy_solver_args 1) toy_loaded toy_world)) \<and>
   s_epoch_body (toy_solver_deps [5, 3, 4, 2]) (toy_solver_args 4) 1
     (snd (solver_run (toy_solver_deps [3]) (toy_solver_args 1) toy_loaded toy_world)) =
     (Next, snd (s_epoch_body (toy_solver_deps [5, 3, 4, 2]) (toy_solver_args 4) 1
        (snd (solver_run (toy_solver_deps [3]) (toy_solver_args 1) toy_loaded toy_world)))) \<and>
   params (s_model (snd (s_epoch_body (toy_solver_deps [5, 3, 4, 2]) (toy_solver_args 4) 1
        (snd (solver_run (toy_solver_deps [3]) (toy_solver_args 1) toy_loaded toy_world))))) = 2 \<and>
   model_pth (snd (s_epoch_body (toy_solver_deps [5, 3, 4, 2]) (toy_solver_args 4) 1
        (snd (solver_run (toy_solver_deps [3]) (toy_solver_args 1) toy_loaded toy_world)))) = Some 1 \<and>
   epoch_body (toy_deps [5, 3, 4, 2]) (toy_args 4 10) 2
     (snd (main_run (toy_deps [3]) (toy_args 1 10) toy_world)) =
     (Next, snd (epoch_body (toy_deps [5, 3, 4, 2]) (toy_args 4 10) 2
        (snd (main_run (toy_deps [3]) (toy_args 1 10) toy_world)))) \<and>
   model_pkl (snd (epoch_body (toy_deps [5, 3, 4, 2]) (toy_args 4 10) 2
        (snd (main_run (toy_deps [3]) (toy_args 1 10) toy_world)))) = Some 2 \<and>
   solver_run (toy_solver_deps [5, 3, 4, 2]) (toy_solver_args 4) toy_loaded toy_world =
     (Exhausted,
      snd (solver_run (toy_solver_deps [5, 3, 4, 2]) (toy_solver_args 4) toy_loaded toy_world)) \<and>
   main_run (toy_deps [5, 3, 4, 2]) (toy_args 4 10) toy_world =
     (Exhausted, snd (main_run (toy_deps [5, 3, 4, 2]) (toy_args 4 10) toy_world)) \<and>
   map sr_val_loss (s_history
     (snd (solver_run (toy_solver_deps [5, 3, 4, 2]) (toy_solver_args 4) toy_loaded toy_world))) =
   map rec_val_loss (history (snd (main_run (toy_deps [5, 3, 4, 2]) (toy_args 4 10) toy_world))) \<and>
   tie_free PInf
     (map rec_val_loss (history (snd (main_run (toy_deps [5, 3, 4, 2]) (toy_args 4 10) toy_world)))) \<and>
   map Suc (saves (s_trace
     (snd (solver_run (toy_solver_deps [5, 3, 4, 2]) (toy_solver_args 4) toy_loaded toy_world)))) =
   saves (trace (snd (main_run (toy_deps [5, 3, 4, 2]) (toy_args 4 10) toy_world))) \<and>
   saves (trace (snd (main_run (toy_deps [5, 3, 4, 2]) (toy_args 4 10) toy_world))) = [1, 2, 4] \<and>
   model_pth
     (snd (solver_run (toy_solver_deps [5, 3, 4, 2]) (toy_solver_args 4) toy_loaded toy_world)) =
     Some 4 \<and>
   model_pkl (snd (main_run (toy_deps [5, 3, 4, 2]) (toy_args 4 10) toy_world)) = Some 4"
proof -
  let ?Y = "toy_solver_deps [5, 3, 4, 2]"
  let ?X = "toy_deps [5, 3, 4, 2]"
  let ?s = "snd (solver_run (toy_solver_deps [3]) (toy_solver_args 1) toy_loaded toy_world)"
  let ?m = "snd (main_run (toy_deps [3]) (toy_args 1 10) toy_world)"
  let ?SB = "s_epoch_body ?Y (toy_solver_args 4) 1 ?s"
  let ?MB = "epoch_body ?X (toy_args 4 10) 2 ?m"
  let ?M = "main_run ?X (toy_args 4 10) toy_world"
  let ?S = "solver_run ?Y (toy_solver_args 4) toy_loaded toy_world"
  have sb: "?SB = (Next, snd ?SB)" by (simp add: toy_solver_defs upt_conv_Cons)
  have sbp: "params (s_model (snd ?SB)) = 2" by (simp add: toy_solver_defs upt_conv_Cons)
  have sbs: "saves (s_trace (snd ?SB)) = saves (s_trace ?s)"
    by (simp add: toy_solver_defs saves_def upt_conv_Cons)
  have sf: "model_pth ?s = Some 1" by (simp add: toy_solver_defs upt_conv_Cons)
  have mb: "?MB = (Next, snd ?MB)" by (simp add: toy_defs upt_conv_Cons)
  have mbp: "params (model (snd ?MB)) = 2" by (simp add: toy_defs upt_conv_Cons)
  have mbs: "saves (trace (snd ?MB)) \<noteq> saves (trace ?m)"
    by (simp add: toy_defs saves_def upt_conv_Cons)
  have tie: "Fin 3 \<noteq> NaN \<and> s_best_val_loss ?s = Fin 3 \<and> best_val_loss ?m = Fin 3"
    by (simp add: toy_defs toy_solver_defs upt_conv_Cons)
  have m: "?M = (Exhausted, snd ?M)" by (simp add: toy_defs upt_conv_Cons)
  have s: "?S = (Exhausted, snd ?S)" by (simp add: toy_solver_defs upt_conv_Cons)
  have mv: "map rec_val_loss (history (snd ?M)) = [Fin 5, Fin 3, Fin 4, Fin 2]"
    by (simp add: toy_defs upt_conv_Cons)
  have sv: "map sr_val_loss (s_history (snd ?S)) = [Fin 5, Fin 3, Fin 4, Fin 2]"
    by (simp add: toy_solver_defs upt_conv_Cons)
  have vs: "map sr_val_loss (s_history (snd ?S)) = map rec_val_loss (history (snd ?M))"
    unfolding mv sv ..
  have tf: "tie_free PInf (map rec_val_loss (history (snd ?M)))" unfolding mv by simp
  have ms: "saves (trace (snd ?M)) = [1, 2, 4]"
    by (simp add: toy_defs saves_def upt_conv_Cons)
  have sp: "model_pth (snd ?S) = Some 4" by (simp add: toy_solver_defs upt_conv_Cons)
  have mp: "model_pkl (snd ?M) = Some 4" by (simp add: toy_defs upt_conv_Cons)
  note T = checkpoint_decisions_differ_on_ties[where e = 1 and v = "Fin 3" and s = ?s
      and A = "toy_args 4 10" and m = ?m and b = "Fin 3" and Y = ?Y and B = "toy_solver_args 4" and i = 1 and r' = Next
      and s' = "snd ?SB" and X = ?X and j = 2 and r = Next and m' = "snd ?MB"
      and d = toy_loaded and u = toy_world and out' = Exhausted and st' = "snd ?S"
      and w = toy_world and out = Exhausted and st = "snd ?M"]
  have 1: "model_pth (snd ?SB) = model_pth ?s" using T sb sbs by simp
  have 2: "model_pkl (snd ?MB) = Some (params (model (snd ?MB)))" using T mb mbs by simp
  have 3: "map Suc (saves (s_trace (snd ?S))) = saves (trace (snd ?M))"
    using T s m vs tf by blast
  have 4: "model_pth (s_checkpoint 1 (Fin 3) ?s) = model_pth ?s" using T tie by blast
  show ?thesis using tie 4 sb sbp 1[unfolded sf] mb 2[unfolded mbp] s m vs tf 3 ms sp mp by blast
qed

subsection \<open>The start of a training run\<close>

lemma train_step_meta:
  "(EvMetadata \<in> set (trace (snd (train_step X A b st)))) = (EvMetadata \<in> set (trace st))"
  by (auto simp: train_step_def Let_def split: sum.splits prod.splits)

lemma train_batches_meta:
  "(EvMetadata \<in> set (trace (snd (train_batches X A bs acc st)))) = (EvMetadata \<in> set (trace st))"
proof (induction bs arbitrary: acc st)
  case Nil
  then show ?case by simp
next
  case (Cons b bs)
  obtain l t s where acc: "acc = (l, t, s)" by (cases acc) auto
  obtain r st1 where ts: "train_step X A b st = (r, st1)" by (cases "train_step X A b st")
  have s1: "(EvMetadata \<in> set (trace st1)) = (EvMetadata \<in> set (trace st))"
    using train_step_meta[of X A b st] ts by simp
  show ?case unfolding acc using ts s1 by (simp add: Let_def Cons.IH split: sum.splits)
qed

lemma val_batches_meta:
  "(EvMetadata \<in> set (trace (snd (val_batches X A bs acc st)))) = (EvMetadata \<in> set (trace st))"
proof (induction bs arbitrary: acc st)
  case Nil
  then show ?case by simp
next
  case (Cons b bs)
  obtain l t s where acc: "acc = (l, t, s)" by (cases acc) auto
  show ?case unfolding acc
    by (simp add: Let_def Cons.IH split: sum.splits prod.splits)
qed

lemma checkpoint_policy_meta:
  "(EvMetadata \<in> set (trace (snd (checkpoint_policy A e v st)))) = (EvMetadata \<in> set (trace st))"
  by (simp add: checkpoint_policy_def Let_def)

lemma epoch_body_meta:
  assumes "epoch_body X A e st = (r, st')"
  shows "(EvMetadata \<in> set (trace st')) = (EvMetadata \<in> set (trace st))"
proof -
  define st1 where "st1 = st\<lparr>model := (model st)\<lparr>training := True\<rparr>, trace := trace st @ [EvEpoch e]\<rparr>"
  obtain tr st2 where tb: "train_batches X A (train_iterator A e) (Fin 0, 0, 0) st1 = (tr, st2)"
    by (cases "train_batches X A (train_iterator A e) (Fin 0, 0, 0) st1")
  have s2: "(EvMetadata \<in> set (trace st2)) = (EvMetadata \<in> set (trace st))"
    using train_batches_meta[of X A "train_iterator A e" "(Fin 0, 0, 0)" st1] tb
    by (simp add: st1_def)
  define st3 where "st3 = st2\<lparr>model := (model st2)\<lparr>training := False\<rparr>\<rparr>"
  obtain vr st4 where vb: "val_batches X A (val_iterator A e) (Fin 0, 0, 0) st3 = (vr, st4)"
    by (cases "val_batches X A (val_iterator A e) (Fin 0, 0, 0) st3")
  have s4: "(EvMetadata \<in> set (trace st4)) = (EvMetadata \<in> set (trace st))"
    using val_batches_meta[of X A "val_iterator A e" "(Fin 0, 0, 0)" st3] vb s2
    by (simp add: st3_def)
  show ?thesis
  proof (cases tr)
    case (Inl err)
    then have "st' = st2" using assms tb by (auto simp: epoch_body_def st1_def Let_def)
    then show ?thesis using s2 by simp
  next
    case (Inr acc)
    note tr = this
    show ?thesis
    proof (cases "val_iterator A e = []")
      case True
      then have "st' = st3" using assms tb tr by (auto simp: epoch_body_def st1_def st3_def Let_def)
      then show ?thesis using s2 by (simp add: st3_def)
    next
      case False
      note ne = this
      show ?thesis
      proof (cases vr)
        case (Inl err)
        then have "st' = st4" using assms tb tr ne vb
          by (auto simp: epoch_body_def st1_def st3_def Let_def)
        then show ?thesis using s4 by simp
      next
        case (Inr vacc)
        obtain v toks seqs where vacc: "vacc = (v, toks, seqs)" by (cases vacc) auto
        obtain r5 st5 where cp: "checkpoint_policy A e v st4 = (r5, st5)"
          by (cases "checkpoint_policy A e v st4")
        have eb: "epoch_body X A e st =
            (case r5 of Next \<Rightarrow> if toks = 0 \<or> seqs = 0 then (Raise ZeroDivisionError, st5) else (Next, st5)
             | _ \<Rightarrow> (r5, st5))"
          using tb tr ne vb Inr vacc cp
          by (simp add: epoch_body_def st1_def st3_def Let_def split: step.splits)
        have st': "st' = st5" using eb assms by (auto split: step.splits if_splits)
        have "(EvMetadata \<in> set (trace st5)) = (EvMetadata \<in> set (trace st4))"
          using checkpoint_policy_meta[of A e v st4] cp by simp
        then show ?thesis unfolding st' using s4 by simp
      qed
    qed
  qed
qed

lemma epoch_loop_meta:
  assumes "epoch_loop X A es st = (out, st')"
  shows "(EvMetadata \<in> set (trace st')) = (EvMetadata \<in> set (trace st))"
  using assms
proof (induction es arbitrary: st)
  case Nil
  then show ?case by auto
next
  case (Cons e es)
  obtain r st1 where eb: "epoch_body X A e st = (r, st1)" by (cases "epoch_body X A e st")
  note b = epoch_body_meta[OF eb]
  show ?case
  proof (cases r)
    case Next
    then have rec: "epoch_loop X A es st1 = (out, st')" using Cons.prems eb by simp
    from Cons.IH[OF rec] b show ?thesis by simp
  next
    case Break
    then have "st' = st1" using Cons.prems eb by auto
    then show ?thesis using b by simp
  next
    case (Raise err)
    then have "st' = st1" using Cons.prems eb by auto
    then show ?thesis using b by simp
  qed
qed

lemma main_run_meta:
  assumes "main_run X A w = (out, st)"
  shows "EvMetadata \<notin> set (trace st)"
  using epoch_loop_meta[OF assms[unfolded main_run_def]]
  by (simp add: main_init_def)

lemma train_starts_from_inf:
  assumes "train X A st0 = (out, st)"
  shows "s_chain PInf (drop (length (s_history st0)) (s_history st))"
    and "model_dict_pkl st = model_dict_pkl st0"
    and "take (length (s_trace st0)) (s_trace st) = s_trace st0"
    and "EvMetadata \<notin> set (drop (length (s_trace st0)) (s_trace st))"
    and "saves (drop (length (s_trace st0)) (s_trace st)) =
           map sr_epoch (filter sr_saved (drop (length (s_history st0)) (s_history st)))"
proof -
  let ?s0 = "st0\<lparr>s_best_val_loss := PInf, best_val_loss_epoch := 0\<rparr>"
  from s_epoch_loop_extends[OF assms[unfolded train_def]] obtain rs evs where
    "s_extends [0 ..< nat (s_n_epochs A)] ?s0 out st rs evs" by blast
  note x = this[unfolded s_extends_def]
  have h: "s_history st = s_history st0 @ rs" using x by simp
  have t: "s_trace st = s_trace st0 @ evs" using x by simp
  have c: "s_chain PInf rs" using x by simp
  have m: "EvMetadata \<notin> set evs" using x by blast
  have sv: "saves evs = map sr_epoch (filter sr_saved rs)" using x by blast
  have cf: "s_cfg st = s_cfg ?s0" using x by blast
  show "s_chain PInf (drop (length (s_history st0)) (s_history st))" unfolding h using c by simp
  show "model_dict_pkl st = model_dict_pkl st0" using cf by (simp add: s_cfg_def)
  show "take (length (s_trace st0)) (s_trace st) = s_trace st0" unfolding t by simp
  show "EvMetadata \<notin> set (drop (length (s_trace st0)) (s_trace st))" unfolding t using m by simp
  show "saves (drop (length (s_trace st0)) (s_trace st)) =
           map sr_epoch (filter sr_saved (drop (length (s_history st0)) (s_history st)))"
    unfolding t h using sv by simp
qed

text \<open>
  C8, as the code has it. train.py starts its loop with best loss \<open>+inf\<close> and patience
  counter 0, every decision of a run is chained from these two values, and no run of it
  writes a bundle of vocabularies and dimensions. Every call of \<open>Solver.train\<close> starts
  from best loss \<open>+inf\<close>, whatever the Solver held before (the Solver has no patience
  counter); it writes no bundle and leaves the one on disk as it is. The bundle is
  written by \<open>init_training\<close>, so a Solver run writes it once, as its first effect and
  before any epoch. In both programs the parameter file is written in exactly the
  epochs whose validation loss improved, and it exists after a run exactly when some
  epoch wrote it.
\<close>

theorem training_start_state_and_metadata:
  "best_val_loss (main_init w) = PInf \<and> patience (main_init w) = 0 \<and>
   (main_run X A w = (out, st) \<longrightarrow>
      policy_chain (args_patience A) PInf 0 (history st) \<and>
      EvMetadata \<notin> set (trace st) \<and>
      saves (trace st) = map rec_epoch (filter rec_saved (history st)) \<and>
      (model_pkl st = None) = (saves (trace st) = [])) \<and>
   s_trace (init_training d u) = [EvMetadata] \<and>
   model_dict_pkl (init_training d u) =
     Some \<lparr>input_dim = length (vocab_itos (ld_src d)),
           output_dim = length (vocab_itos (ld_trg d)),
           source_vocab = ld_src d, target_vocab = ld_trg d\<rparr> \<and>
   (train Y B s = (res, t) \<longrightarrow>
      s_chain PInf (drop (length (s_history s)) (s_history t)) \<and>
      model_dict_pkl t = model_dict_pkl s \<and>
      take (length (s_trace s)) (s_trace t) = s_trace s \<and>
      EvMetadata \<notin> set (drop (length (s_trace s)) (s_trace t)) \<and>
      saves (drop (length (s_trace s)) (s_trace t)) =
        map sr_epoch (filter sr_saved (drop (length (s_history s)) (s_history t)))) \<and>
   (solver_run Y B d u = (out', st') \<longrightarrow>
      s_chain PInf (s_history st') \<and>
      take 1 (s_trace st') = [EvMetadata] \<and>
      EvMetadata \<notin> set (drop 1 (s_trace st')) \<and>
      model_dict_pkl st' =
        Some \<lparr>input_dim = length (vocab_itos (ld_src d)),
              output_dim = length (vocab_itos (ld_trg d)),
              source_vocab = ld_src d, target_vocab = ld_trg d\<rparr> \<and>
      saves (s_trace st') = map sr_epoch (filter sr_saved (s_history st')) \<and>
      (model_pth st' = None) = (saves (s_trace st') = []))"
proof (intro conjI impI)
  show "best_val_loss (main_init w) = PInf" "patience (main_init w) = 0"
    by (simp_all add: main_init_def)
  show "s_trace (init_training d u) = [EvMetadata]"
    by (simp add: init_training_def Let_def)
  show "model_dict_pkl (init_training d u) =
     Some \<lparr>input_dim = length (vocab_itos (ld_src d)),
           output_dim = length (vocab_itos (ld_trg d)),
           source_vocab = ld_src d, target_vocab = ld_trg d\<rparr>"
    by (simp add: init_training_def Let_def)
next
  assume run: "main_run X A w = (out, st)"
  show "policy_chain (args_patience A) PInf 0 (history st)"
    using main_run_history[OF run] by blast
  show "EvMetadata \<notin> set (trace st)" using run by (rule main_run_meta)
  show "saves (trace st) = map rec_epoch (filter rec_saved (history st))"
    using main_run_saves[OF run] .
  show "(model_pkl st = None) = (saves (trace st) = [])" using run by (rule main_run_file)
next
  assume run: "train Y B s = (res, t)"
  note T = train_starts_from_inf[OF run]
  show "s_chain PInf (drop (length (s_history s)) (s_history t))" by (rule T(1))
  show "model_dict_pkl t = model_dict_pkl s" by (rule T(2))
  show "take (length (s_trace s)) (s_trace t) = s_trace s" by (rule T(3))
  show "EvMetadata \<notin> set (drop (length (s_trace s)) (s_trace t))" by (rule T(4))
  show "saves (drop (length (s_trace s)) (s_trace t)) =
        map sr_epoch (filter sr_saved (drop (length (s_history s)) (s_history t)))"
    by (rule T(5))
next
  assume run: "solver_run Y B d u = (out', st')"
  note S = solver_run_facts[OF run]
  from S obtain evs where tr: "s_trace st' = EvMetadata # evs" "EvMetadata \<notin> set evs" by blast
  show "s_chain PInf (s_history st')" using S by blast
  show "take 1 (s_trace st') = [EvMetadata]" using tr by simp
  show "EvMetadata \<notin> set (drop 1 (s_trace st'))" using tr by simp
  have "model_dict_pkl st' = model_dict_pkl (init_training d u)" using S by blast
  then show "model_dict_pkl st' =
        Some \<lparr>input_dim = length (vocab_itos (ld_src d)),
              output_dim = length (vocab_itos (ld_trg d)),
              source_vocab = ld_src d, target_vocab = ld_trg d\<rparr>"
    by (simp add: init_training_def Let_def)
  show "saves (s_trace st') = map sr_epoch (filter sr_saved (s_history st'))"
    using solver_run_saves[OF run] .
  show "(model_pth st' = None) = (saves (s_trace st') = [])" using run by (rule solver_run_file)
qed

theorem training_start_state_and_metadata_witness:
  "main_run (toy_deps [5, 3, 4, 2]) (toy_args 4 10) toy_world =
     (Exhausted, snd (main_run (toy_deps [5, 3, 4, 2]) (toy_args 4 10) toy_world)) \<and>
   saves (trace (snd (main_run (toy_deps [5, 3, 4, 2]) (toy_args 4 10) toy_world))) = [1, 2, 4] \<and>
   s_best_val_loss toy_trained = Fin 5 \<and>
   train (toy_solver_deps [5, 9, 10, 2]) (toy_solver_args 4) toy_trained =
     (Exhausted, snd (train (toy_solver_deps [5, 9, 10, 2]) (toy_solver_args 4) toy_trained)) \<and>
   map sr_val_loss (drop (length (s_history toy_trained))
     (s_history (snd (train (toy_solver_deps [5, 9, 10, 2]) (toy_solver_args 4) toy_trained)))) =
     [Fin 9, Fin 10, Fin 2, Fin 1] \<and>
   map sr_saved (drop (length (s_history toy_trained))
     (s_history (snd (train (toy_solver_deps [5, 9, 10, 2]) (toy_solver_args 4) toy_trained)))) =
     [True, False, True, True] \<and>
   solver_run (toy_solver_deps [5, 9, 10, 2]) (toy_solver_args 4) toy_loaded toy_world =
     (Exhausted,
      snd (solver_run (toy_solver_deps [5, 9, 10, 2]) (toy_solver_args 4) toy_loaded toy_world)) \<and>
   take 1 (s_trace
     (snd (solver_run (toy_solver_deps [5, 9, 10, 2]) (toy_solver_args 4) toy_loaded toy_world)))
     = [EvMetadata] \<and>
   saves (s_trace
     (snd (solver_run (toy_solver_deps [5, 9, 10, 2]) (toy_solver_args 4) toy_loaded toy_world)))
     = [0, 3]"
proof -
  let ?Y = "toy_solver_deps [5, 9, 10, 2]"
  let ?M = "main_run (toy_deps [5, 3, 4, 2]) (toy_args 4 10) toy_world"
  let ?S = "solver_run ?Y (toy_solver_args 4) toy_loaded toy_world"
  let ?T = "train ?Y (toy_solver_args 4) toy_trained"
  let ?rs = "drop (length (s_history toy_trained)) (s_history (snd ?T))"
  have m: "?M = (Exhausted, snd ?M)" by (simp add: toy_defs upt_conv_Cons)
  have s: "?S = (Exhausted, snd ?S)" by (simp add: toy_solver_defs upt_conv_Cons)
  have t: "?T = (Exhausted, snd ?T)"
    by (simp add: toy_trained_def toy_solver_defs upt_conv_Cons)
  have b0: "s_best_val_loss toy_trained = Fin 5"
    by (simp add: toy_trained_def toy_solver_defs upt_conv_Cons)
  have tv: "map sr_val_loss ?rs = [Fin 9, Fin 10, Fin 2, Fin 1]"
    by (simp add: toy_trained_def toy_solver_defs upt_conv_Cons)
  have ms: "map rec_epoch (filter rec_saved (history (snd ?M))) = [1, 2, 4]"
    by (simp add: toy_defs upt_conv_Cons)
  have ss: "map sr_epoch (filter sr_saved (s_history (snd ?S))) = [0, 3]"
    by (simp add: toy_solver_defs upt_conv_Cons)
  note T = training_start_state_and_metadata[where w = toy_world
      and X = "toy_deps [5, 3, 4, 2]" and A = "toy_args 4 10"
      and out = Exhausted and st = "snd ?M" and d = toy_loaded and u = toy_world
      and Y = ?Y and B = "toy_solver_args 4" and out' = Exhausted and st' = "snd ?S"
      and s = toy_trained and res = Exhausted and t = "snd ?T"]
  have 1: "take 1 (s_trace (snd ?S)) = [EvMetadata]" using T s by blast
  have 2: "saves (s_trace (snd ?S)) = map sr_epoch (filter sr_saved (s_history (snd ?S)))"
    using T s by blast
  have 3: "saves (trace (snd ?M)) = map rec_epoch (filter rec_saved (history (snd ?M)))"
    using T m by blast
  have ch: "s_chain PInf ?rs" using T t by blast
  from tv obtain r1 r2 r3 r4 where rs: "?rs = [r1, r2, r3, r4]"
    and v: "sr_val_loss r1 = Fin 9" "sr_val_loss r2 = Fin 10" "sr_val_loss r3 = Fin 2"
           "sr_val_loss r4 = Fin 1"
    by (auto simp: map_eq_Cons_conv)
  have c: "s_chain PInf [r1, r2, r3, r4]" using ch unfolding rs .
  have s1: "sr_saved r1" "sr_best r1 = Fin 9" using c v by simp_all
  have s2: "\<not> sr_saved r2" "sr_best r2 = Fin 9" using c v s1 by simp_all
  have s3: "sr_saved r3" "sr_best r3 = Fin 2" using c v s1 s2 by simp_all
  have s4: "sr_saved r4" using c v s1 s2 s3 by simp_all
  have 4: "map sr_saved ?rs = [True, False, True, True]" unfolding rs using s1 s2 s3 s4 by simp
  show ?thesis using m s t b0 tv 1 2[unfolded ss] 3[unfolded ms] 4 by blast
qed

text \<open>
  C8 as stated fails for train.py: a complete run of one epoch has the effects below,
  and writing the bundle of vocabularies and dimensions is not among them (the file
  \<open>config.pt\<close> of lines 85-86, written before the loop, holds the name of the data set
  only).
\<close>

theorem train_py_writes_no_metadata_bundle:
  "main_run (toy_deps [5]) (toy_args 1 10) toy_world =
     (Exhausted, snd (main_run (toy_deps [5]) (toy_args 1 10) toy_world)) \<and>
   trace (snd (main_run (toy_deps [5]) (toy_args 1 10) toy_world)) =
     [EvEpoch 1, EvForward, EvLoss, EvZeroGrad, EvBackward, EvClip, EvStep,
      EvValForward, EvValLoss, EvSave 1] \<and>
   EvMetadata \<notin> set (trace (snd (main_run (toy_deps [5]) (toy_args 1 10) toy_world)))"
  by (simp add: toy_defs upt_conv_Cons)

section \<open>Validation and the training step\<close>

lemma s_val_batches_loss:
  "fst (s_val_batches Y bs l s) =
     sum_losses (map (s_batch_loss Y (s_criterion s) (training (s_model s)) (params (s_model s))) bs) l"
proof (induction bs arbitrary: l s)
  case Nil
  then show ?case by simp
next
  case (Cons b bs)
  show ?case
    by (cases "s_batch_loss Y (s_criterion s) (training (s_model s)) (params (s_model s)) b")
       (simp_all add: Let_def s_batch_loss_def Cons.IH)
qed

lemma validate_loss:
  "fst (validate Y bs s) =
     (case sum_losses (map (s_batch_loss Y (s_criterion s) False (params (s_model s))) bs) (Fin 0) of
        Inl e \<Rightarrow> Inl e
      | Inr t \<Rightarrow> flt_div_len t (length bs))"
proof -
  let ?s0 = "s\<lparr>s_model := (s_model s)\<lparr>training := False\<rparr>\<rparr>"
  have "fst (s_val_batches Y bs (Fin 0) ?s0) =
      sum_losses (map (s_batch_loss Y (s_criterion s) False (params (s_model s))) bs) (Fin 0)"
    using s_val_batches_loss[of Y bs "Fin 0" ?s0] by simp
  then show ?thesis
    by (cases "s_val_batches Y bs (Fin 0) ?s0") (auto simp: validate_def split: sum.splits)
qed

lemma val_batches_loss:
  "map_sum (\<lambda>e. e) fst (fst (val_batches X A bs acc st)) =
     sum_losses (map (val_batch_loss X A (training (model st)) (params (model st))) bs) (fst acc)"
proof (induction bs arbitrary: acc st)
  case Nil
  then show ?case by simp
next
  case (Cons b bs)
  obtain l t s where acc: "acc = (l, t, s)" by (cases acc) auto
  obtain outs lg where fi:
    "forward_infer X (training (model st)) (params (model st)) b (target_sos_idx A)
       (int (length (trg_seq b)) - 1) = (outs, lg)"
    by (cases "forward_infer X (training (model st)) (params (model st)) b (target_sos_idx A)
       (int (length (trg_seq b)) - 1)")
  have vb: "val_batch_loss X A (training (model st)) (params (model st)) b =
      model_loss X lg (trg_seq b) (CrossEntropyLoss (target_pad_idx A) Sum)"
    by (simp add: val_batch_loss_def fi)
  show ?case
  proof (cases "model_loss X lg (trg_seq b) (CrossEntropyLoss (target_pad_idx A) Sum)")
    case (Inl e)
    then show ?thesis unfolding acc by (simp add: Let_def fi vb)
  next
    case (Inr loss)
    let ?st1 = "st\<lparr>trace := trace st @ [EvValForward, EvValLoss]\<rparr>"
    let ?acc1 = "(flt_add l loss, t + sum_list (trg_len b), s + length (trg_len b))"
    have e: "val_batches X A (b # bs) (l, t, s) st = val_batches X A bs ?acc1 ?st1"
      using Inr by (simp add: Let_def fi)
    have "map_sum (\<lambda>e. e) fst (fst (val_batches X A bs ?acc1 ?st1)) =
        sum_losses (map (val_batch_loss X A (training (model ?st1)) (params (model ?st1))) bs)
          (fst ?acc1)" by (rule Cons.IH)
    then show ?thesis unfolding acc e using Inr vb by simp
  qed
qed

lemma s_train_step_loss:
  "fst (s_train_step Y B b s) =
     s_batch_loss Y (s_criterion s) (training (s_model s)) (params (s_model s)) b"
  by (simp add: s_train_step_def s_batch_loss_def Let_def split: sum.splits prod.splits)

lemma train_step_loss:
  "fst (train_step X A c st) =
     model_loss X (forward_train X (training (model st)) (params (model st)) c) (trg_seq c)
       (CrossEntropyLoss (target_pad_idx A) Sum)"
  by (simp add: train_step_def Let_def split: sum.splits prod.splits)

text \<open>
  C6. Validation updates nothing: \<open>Solver.validate\<close> returns the model with the same
  parameters, gradients and optimizer state (only the mode flag is set to evaluation),
  and the validation loop of train.py returns the model as it was. The validation loss
  is the sum over the batches (divided by their number in the Solver) of the loss that
  the training step computes, with the same criterion, at the unchanged parameters.
\<close>

theorem validation_updates_no_parameter:
  "(validate Y bs s = (r, s') \<longrightarrow>
      params (s_model s') = params (s_model s) \<and>
      grads (s_model s') = grads (s_model s) \<and>
      opt_state (s_model s') = opt_state (s_model s) \<and>
      r = (case sum_losses
                  (map (s_batch_loss Y (s_criterion s) False (params (s_model s))) bs) (Fin 0) of
             Inl e \<Rightarrow> Inl e
           | Inr t \<Rightarrow> flt_div_len t (length bs))) \<and>
   fst (s_train_step Y B b s) =
     s_batch_loss Y (s_criterion s) (training (s_model s)) (params (s_model s)) b \<and>
   (val_batches X A vs acc st = (q, st') \<longrightarrow>
      model st' = model st \<and>
      map_sum (\<lambda>e. e) fst q =
        sum_losses (map (val_batch_loss X A (training (model st)) (params (model st))) vs)
          (fst acc)) \<and>
   fst (train_step X A c st) =
     model_loss X (forward_train X (training (model st)) (params (model st)) c) (trg_seq c)
       (CrossEntropyLoss (target_pad_idx A) Sum)"
proof (intro conjI impI)
  assume v: "validate Y bs s = (r, s')"
  have m: "s_model s' = (s_model s)\<lparr>training := False\<rparr>"
    using validate_frame[of Y bs s] v by simp
  show "params (s_model s') = params (s_model s)" "grads (s_model s') = grads (s_model s)"
    "opt_state (s_model s') = opt_state (s_model s)" unfolding m by simp_all
  show "r = (case sum_losses
                  (map (s_batch_loss Y (s_criterion s) False (params (s_model s))) bs) (Fin 0) of
             Inl e \<Rightarrow> Inl e
           | Inr t \<Rightarrow> flt_div_len t (length bs))"
    using validate_loss[of Y bs s] v by simp
next
  assume v: "val_batches X A vs acc st = (q, st')"
  show "model st' = model st" using val_batches_frame[of X A vs acc st] v by simp
  show "map_sum (\<lambda>e. e) fst q =
        sum_losses (map (val_batch_loss X A (training (model st)) (params (model st))) vs)
          (fst acc)"
    using val_batches_loss[of X A vs acc st] v by simp
qed (rule s_train_step_loss, rule train_step_loss)

theorem validation_updates_no_parameter_witness:
  "validate (toy_solver_deps [5]) [toy_sbatch] (init_training toy_loaded toy_world) =
     (Inr (Fin 5),
      snd (validate (toy_solver_deps [5]) [toy_sbatch] (init_training toy_loaded toy_world))) \<and>
   params (s_model
      (snd (validate (toy_solver_deps [5]) [toy_sbatch] (init_training toy_loaded toy_world)))) =
     params (s_model (init_training toy_loaded toy_world)) \<and>
   val_batches (toy_deps [5]) (toy_args 1 10) [toy_batch] (Fin 0, 0, 0)
      ((main_init toy_world)\<lparr>model := toy_world\<lparr>params := 1\<rparr>\<rparr>) =
     (Inr (Fin 5, 2, 1),
      snd (val_batches (toy_deps [5]) (toy_args 1 10) [toy_batch] (Fin 0, 0, 0)
        ((main_init toy_world)\<lparr>model := toy_world\<lparr>params := 1\<rparr>\<rparr>))) \<and>
   model (snd (val_batches (toy_deps [5]) (toy_args 1 10) [toy_batch] (Fin 0, 0, 0)
        ((main_init toy_world)\<lparr>model := toy_world\<lparr>params := 1\<rparr>\<rparr>))) =
     toy_world\<lparr>params := 1\<rparr>"
proof -
  let ?s = "init_training toy_loaded toy_world"
  let ?V = "validate (toy_solver_deps [5]) [toy_sbatch] ?s"
  let ?st = "(main_init toy_world)\<lparr>model := toy_world\<lparr>params := 1\<rparr>\<rparr>"
  let ?W = "val_batches (toy_deps [5]) (toy_args 1 10) [toy_batch] (Fin 0, 0, 0) ?st"
  have v: "?V = (Inr (Fin 5), snd ?V)"
    by (simp add: toy_solver_defs)
  have w: "?W = (Inr (Fin 5, 2, 1), snd ?W)"
    by (simp add: toy_defs)
  note T = validation_updates_no_parameter[of "toy_solver_deps [5]" "[toy_sbatch]" ?s
      "Inr (Fin 5)" "snd ?V" "toy_solver_args 1" toy_sbatch
      "toy_deps [5]" "toy_args 1 10" "[toy_batch]" "(Fin 0, 0, 0)" ?st
      "Inr (Fin 5, 2, 1)" "snd ?W" toy_batch]
  have 1: "params (s_model (snd ?V)) = params (s_model ?s)" using T v by blast
  have "model (snd ?W) = model ?st" using T w by blast
  then have 2: "model (snd ?W) = toy_world\<lparr>params := 1\<rparr>" by simp
  show ?thesis using v w 1 2 by blast
qed

lemma s_train_step_effect:
  assumes "s_train_step Y B b s = (Inr l, s')"
  shows "s_trace s' = s_trace s @ [EvForward, EvZeroGrad, EvLoss, EvBackward, EvClip, EvStep]"
    and "grads (s_model s') =
           s_clip_grad_norm Y (clip B)
             (s_backward Y (training (s_model s)) (params (s_model s)) b
                (s_zero_grad Y (grads (s_model s))))"
    and "(opt_state (s_model s'), params (s_model s')) =
           s_opt_step Y (opt_state (s_model s)) (params (s_model s)) (grads (s_model s'))"
  using assms
  by (auto simp: s_train_step_def Let_def split: sum.splits prod.splits)

lemma train_step_effect:
  assumes "train_step X A c st = (Inr l, st')"
  shows "trace st' = trace st @ [EvForward, EvLoss, EvZeroGrad, EvBackward, EvClip, EvStep]"
    and "grads (model st') =
           clip_grad_norm X (grad_clip A)
             (backward X (training (model st)) (params (model st)) c
                (zero_grad X (grads (model st))))"
    and "(opt_state (model st'), params (model st')) =
           opt_step X (opt_state (model st)) (params (model st)) (grads (model st'))"
  using assms
  by (auto simp: train_step_def Let_def split: sum.splits prod.splits)

text \<open>
  C7. A training step that completes clears the gradients, backpropagates onto the
  cleared gradients, clips the result with the configured threshold and hands the
  clipped gradients to the optimizer, in both programs. The loss of a Solver step does
  not depend on the first decoding step of the output or of the target; the same holds
  for train.py when the loss method of its model is the one the specification
  describes.
\<close>

theorem training_step_order:
  "(s_train_step Y B b s = (Inr l, s') \<longrightarrow>
      s_trace s' = s_trace s @ [EvForward, EvZeroGrad, EvLoss, EvBackward, EvClip, EvStep] \<and>
      grads (s_model s') =
        s_clip_grad_norm Y (clip B)
          (s_backward Y (training (s_model s)) (params (s_model s)) b
             (s_zero_grad Y (grads (s_model s)))) \<and>
      (opt_state (s_model s'), params (s_model s')) =
        s_opt_step Y (opt_state (s_model s)) (params (s_model s)) (grads (s_model s'))) \<and>
   (train_step X A c st = (Inr k, st') \<longrightarrow>
      trace st' = trace st @ [EvForward, EvLoss, EvZeroGrad, EvBackward, EvClip, EvStep] \<and>
      grads (model st') =
        clip_grad_norm X (grad_clip A)
          (backward X (training (model st)) (params (model st)) c
             (zero_grad X (grads (model st)))) \<and>
      (opt_state (model st'), params (model st')) =
        opt_step X (opt_state (model st)) (params (model st)) (grads (model st'))) \<and>
   (drop 1 (s_forward Y (training (s_model s)) (params (s_model s)) (b_src b) (b_trg b)) =
      drop 1 (s_forward Y' (training (s_model s)) (params (s_model s)) (b_src b') (b_trg b')) \<and>
    drop 1 (b_trg b) = drop 1 (b_trg b') \<longrightarrow>
      fst (s_train_step Y B b s) = fst (s_train_step Y' B b' s)) \<and>
   (model_loss X = model_loss_spec \<and> model_loss X' = model_loss_spec \<and>
    drop 1 (forward_train X (training (model st)) (params (model st)) c) =
      drop 1 (forward_train X' (training (model st)) (params (model st)) c') \<and>
    drop 1 (trg_seq c) = drop 1 (trg_seq c') \<longrightarrow>
      fst (train_step X A c st) = fst (train_step X' A c' st))"
proof (intro conjI impI)
  assume a: "s_train_step Y B b s = (Inr l, s')"
  show "s_trace s' = s_trace s @ [EvForward, EvZeroGrad, EvLoss, EvBackward, EvClip, EvStep]"
    using s_train_step_effect(1)[OF a] .
  show "grads (s_model s') =
        s_clip_grad_norm Y (clip B)
          (s_backward Y (training (s_model s)) (params (s_model s)) b
             (s_zero_grad Y (grads (s_model s))))"
    using s_train_step_effect(2)[OF a] .
  show "(opt_state (s_model s'), params (s_model s')) =
        s_opt_step Y (opt_state (s_model s)) (params (s_model s)) (grads (s_model s'))"
    using s_train_step_effect(3)[OF a] .
next
  assume a: "train_step X A c st = (Inr k, st')"
  show "trace st' = trace st @ [EvForward, EvLoss, EvZeroGrad, EvBackward, EvClip, EvStep]"
    using train_step_effect(1)[OF a] .
  show "grads (model st') =
        clip_grad_norm X (grad_clip A)
          (backward X (training (model st)) (params (model st)) c
             (zero_grad X (grads (model st))))"
    using train_step_effect(2)[OF a] .
  show "(opt_state (model st'), params (model st')) =
        opt_step X (opt_state (model st)) (params (model st)) (grads (model st'))"
    using train_step_effect(3)[OF a] .
next
  assume "drop 1 (s_forward Y (training (s_model s)) (params (s_model s)) (b_src b) (b_trg b)) =
      drop 1 (s_forward Y' (training (s_model s)) (params (s_model s)) (b_src b') (b_trg b')) \<and>
    drop 1 (b_trg b) = drop 1 (b_trg b')"
  then show "fst (s_train_step Y B b s) = fst (s_train_step Y' B b' s)"
    unfolding s_train_step_loss s_batch_loss_def by simp
next
  assume "model_loss X = model_loss_spec \<and> model_loss X' = model_loss_spec \<and>
    drop 1 (forward_train X (training (model st)) (params (model st)) c) =
      drop 1 (forward_train X' (training (model st)) (params (model st)) c') \<and>
    drop 1 (trg_seq c) = drop 1 (trg_seq c')"
  then show "fst (train_step X A c st) = fst (train_step X' A c' st)"
    unfolding train_step_loss model_loss_spec_def by (simp add: model_loss_spec_def)
qed

theorem training_step_order_witness:
  "s_train_step (toy_solver_deps [5]) (toy_solver_args 1) toy_sbatch
      (init_training toy_loaded toy_world) =
     (Inr (Fin 5),
      snd (s_train_step (toy_solver_deps [5]) (toy_solver_args 1) toy_sbatch
             (init_training toy_loaded toy_world))) \<and>
   s_trace (snd (s_train_step (toy_solver_deps [5]) (toy_solver_args 1) toy_sbatch
             (init_training toy_loaded toy_world))) =
     [EvMetadata, EvForward, EvZeroGrad, EvLoss, EvBackward, EvClip, EvStep] \<and>
   train_step toy_spec_deps (toy_args 1 10) toy_batch (main_init toy_world) =
     (Inr (Fin (nll [0, 0, 0] 2)),
      snd (train_step toy_spec_deps (toy_args 1 10) toy_batch (main_init toy_world))) \<and>
   trace (snd (train_step toy_spec_deps (toy_args 1 10) toy_batch (main_init toy_world))) =
     [EvForward, EvLoss, EvZeroGrad, EvBackward, EvClip, EvStep] \<and>
   model_loss toy_spec_deps = model_loss_spec \<and>
   drop 1 (b_trg toy_sbatch) = drop 1 (b_trg (toy_sbatch\<lparr>b_trg := [[1], [0]]\<rparr>)) \<and>
   drop 1 (trg_seq toy_batch) = drop 1 (trg_seq (toy_batch\<lparr>trg_seq := [[0], [2]]\<rparr>)) \<and>
   fst (s_train_step (toy_solver_deps [5]) (toy_solver_args 1) toy_sbatch
          (init_training toy_loaded toy_world)) =
   fst (s_train_step (toy_solver_deps [5]) (toy_solver_args 1) (toy_sbatch\<lparr>b_trg := [[1], [0]]\<rparr>)
          (init_training toy_loaded toy_world)) \<and>
   fst (train_step toy_spec_deps (toy_args 1 10) toy_batch (main_init toy_world)) =
   fst (train_step toy_spec_deps (toy_args 1 10) (toy_batch\<lparr>trg_seq := [[0], [2]]\<rparr>)
          (main_init toy_world))"
proof -
  let ?Y = "toy_solver_deps [5]" and ?B = "toy_solver_args 1"
  let ?s = "init_training toy_loaded toy_world"
  let ?b' = "toy_sbatch\<lparr>b_trg := [[1], [0]]\<rparr>"
  let ?A = "toy_args 1 10" and ?st = "main_init toy_world"
  let ?c' = "toy_batch\<lparr>trg_seq := [[0], [2]]\<rparr>"
  let ?S = "s_train_step ?Y ?B toy_sbatch ?s"
  let ?T = "train_step toy_spec_deps ?A toy_batch ?st"
  have s: "?S = (Inr (Fin 5), snd ?S)" by (simp add: toy_solver_defs)
  have t: "?T = (Inr (Fin (nll [0, 0, 0] 2)), snd ?T)"
    by (simp add: toy_defs toy_spec_deps_def model_loss_spec_def CrossEntropyLoss_def)
  have ml: "model_loss toy_spec_deps = model_loss_spec" by (simp add: toy_spec_deps_def)
  have f1: "drop 1 (s_forward ?Y (training (s_model ?s)) (params (s_model ?s))
                 (b_src toy_sbatch) (b_trg toy_sbatch)) =
            drop 1 (s_forward ?Y (training (s_model ?s)) (params (s_model ?s))
                 (b_src ?b') (b_trg ?b'))"
    by (simp add: toy_solver_deps_def)
  have d1: "drop 1 (b_trg toy_sbatch) = drop 1 (b_trg ?b')" by (simp add: toy_sbatch_def)
  have f2: "drop 1 (forward_train toy_spec_deps (training (model ?st)) (params (model ?st)) toy_batch) =
            drop 1 (forward_train toy_spec_deps (training (model ?st)) (params (model ?st)) ?c')"
    by (simp add: toy_spec_deps_def)
  have d2: "drop 1 (trg_seq toy_batch) = drop 1 (trg_seq ?c')" by (simp add: toy_batch_def)
  have tr0: "s_trace ?s = [EvMetadata]" "trace ?st = []"
    by (simp_all add: init_training_def main_init_def Let_def)
  note T = training_step_order[of ?Y ?B toy_sbatch ?s "Fin 5" "snd ?S"
      toy_spec_deps ?A toy_batch ?st "Fin (nll [0, 0, 0] 2)" "snd ?T" ?Y ?b' toy_spec_deps ?c']
  have 1: "s_trace (snd ?S) = s_trace ?s @ [EvForward, EvZeroGrad, EvLoss, EvBackward, EvClip, EvStep]"
    using T s by blast
  have 2: "trace (snd ?T) = trace ?st @ [EvForward, EvLoss, EvZeroGrad, EvBackward, EvClip, EvStep]"
    using T t by blast
  have 3: "fst ?S = fst (s_train_step ?Y ?B ?b' ?s)" using T f1 d1 by blast
  have 4: "fst ?T = fst (train_step toy_spec_deps ?A ?c' ?st)" using T ml f2 d2 by blast
  show ?thesis using s t ml d1 d2 1[unfolded tr0] 2[unfolded tr0] 3 4 by simp
qed

section \<open>Padding and the loss\<close>

lemma ce_terms_filter:
  "length rows = length tgts \<Longrightarrow>
   ce_terms pad rows tgts =
     ce_terms pad (map fst (filter (\<lambda>(r, t). t \<noteq> pad) (zip rows tgts)))
       (filter (\<lambda>t. t \<noteq> pad) tgts)"
  by (induction rows tgts rule: list_induct2) auto

lemma ce_terms_all_pad:
  "length rows = length tgts \<Longrightarrow> \<forall>t\<in>set tgts. t = pad \<Longrightarrow> ce_terms pad rows tgts = Inr []"
  by (induction rows tgts rule: list_induct2) auto

lemma cross_entropy_all_pad:
  assumes "length rows = length tgts" and "\<forall>t\<in>set tgts. t = pad"
  shows "CrossEntropyLoss pad Sum rows tgts = Inr (Fin 0)"
    and "CrossEntropyLoss pad Mean rows tgts = Inr NaN"
  using ce_terms_all_pad[OF assms] by (simp_all add: CrossEntropyLoss_def)

lemma init_training_criterion:
  "s_criterion (init_training d u) =
     CrossEntropyLoss (vocab_stoi (ld_trg d) (pad_token (ld_trg d))) Mean"
  by (simp add: init_training_def Let_def)

text \<open>
  C5, as the code has it. With either reduction the criterion gives the loss of the
  positions whose target is not the padding token. A train.py batch whose targets after
  the first decoding step are all padding has loss exactly zero (summed criterion, loss
  method as the specification describes it). A Solver batch of that kind has loss NaN:
  the criterion built by \<open>init_training\<close> takes the mean over the positions that are not
  ignored, and there are none.
\<close>

theorem loss_ignores_padding:
  "(length rows = length tgts \<longrightarrow>
      CrossEntropyLoss pad red rows tgts =
        CrossEntropyLoss pad red (map fst (filter (\<lambda>(r, t). t \<noteq> pad) (zip rows tgts)))
          (filter (\<lambda>t. t \<noteq> pad) tgts)) \<and>
   (model_loss X = model_loss_spec \<and>
    length (concat (drop 1 (forward_train X (training (model st)) (params (model st)) c))) =
      length (concat (drop 1 (trg_seq c))) \<and>
    (\<forall>t\<in>set (concat (drop 1 (trg_seq c))). t = target_pad_idx A) \<longrightarrow>
      fst (train_step X A c st) = Inr (Fin 0)) \<and>
   (s_criterion s = s_criterion (init_training d u) \<and>
    length (concat (drop 1 (s_forward Y (training (s_model s)) (params (s_model s))
                              (b_src b) (b_trg b)))) =
      length (concat (drop 1 (b_trg b))) \<and>
    (\<forall>t\<in>set (concat (drop 1 (b_trg b))). t = vocab_stoi (ld_trg d) (pad_token (ld_trg d))) \<longrightarrow>
      fst (s_train_step Y B b s) = Inr NaN)"
proof (intro conjI impI)
  assume "length rows = length tgts"
  then show "CrossEntropyLoss pad red rows tgts =
        CrossEntropyLoss pad red (map fst (filter (\<lambda>(r, t). t \<noteq> pad) (zip rows tgts)))
          (filter (\<lambda>t. t \<noteq> pad) tgts)"
    unfolding CrossEntropyLoss_def using ce_terms_filter[of rows tgts pad] by simp
next
  assume a: "model_loss X = model_loss_spec \<and>
    length (concat (drop 1 (forward_train X (training (model st)) (params (model st)) c))) =
      length (concat (drop 1 (trg_seq c))) \<and>
    (\<forall>t\<in>set (concat (drop 1 (trg_seq c))). t = target_pad_idx A)"
  then have ml: "model_loss X = model_loss_spec"
    and len: "length (concat (drop 1 (forward_train X (training (model st)) (params (model st)) c))) =
      length (concat (drop 1 (trg_seq c)))"
    and pad: "\<forall>t\<in>set (concat (drop 1 (trg_seq c))). t = target_pad_idx A" by blast+
  show "fst (train_step X A c st) = Inr (Fin 0)"
    unfolding train_step_loss ml model_loss_spec_def
    using cross_entropy_all_pad(1)[OF len pad] .
next
  assume a: "s_criterion s = s_criterion (init_training d u) \<and>
    length (concat (drop 1 (s_forward Y (training (s_model s)) (params (s_model s))
                              (b_src b) (b_trg b)))) =
      length (concat (drop 1 (b_trg b))) \<and>
    (\<forall>t\<in>set (concat (drop 1 (b_trg b))). t = vocab_stoi (ld_trg d) (pad_token (ld_trg d)))"
  then have cr: "s_criterion s = CrossEntropyLoss (vocab_stoi (ld_trg d) (pad_token (ld_trg d))) Mean"
    and len: "length (concat (drop 1 (s_forward Y (training (s_model s)) (params (s_model s))
                              (b_src b) (b_trg b)))) = length (concat (drop 1 (b_trg b)))"
    and pad: "\<forall>t\<in>set (concat (drop 1 (b_trg b))). t = vocab_stoi (ld_trg d) (pad_token (ld_trg d))"
    using init_training_criterion[of d u] by auto
  show "fst (s_train_step Y B b s) = Inr NaN"
    unfolding s_train_step_loss s_batch_loss_def cr
    using cross_entropy_all_pad(2)[OF len pad] .
qed

theorem loss_ignores_padding_witness:
  "length [[0, 0 :: real]] = length [1 :: nat] \<and>
   model_loss toy_spec_deps = model_loss_spec \<and>
   concat (drop 1 (trg_seq (toy_batch\<lparr>trg_seq := [[1], [0]]\<rparr>))) =
     [target_pad_idx (toy_args 1 10)] \<and>
   fst (train_step toy_spec_deps (toy_args 1 10) (toy_batch\<lparr>trg_seq := [[1], [0]]\<rparr>)
          (main_init toy_world)) = Inr (Fin 0) \<and>
   concat (drop 1 (b_trg pad_sbatch)) =
     [vocab_stoi (ld_trg toy_loaded) (pad_token (ld_trg toy_loaded))] \<and>
   fst (s_train_step (toy_solver_deps [5]) (toy_solver_args 1) pad_sbatch
          (init_training toy_loaded toy_world)) = Inr NaN \<and>
   CrossEntropyLoss 1 Mean [[0, 0]] [1] = CrossEntropyLoss 1 Mean [] []"
proof -
  let ?c = "toy_batch\<lparr>trg_seq := [[1], [0]]\<rparr>"
  let ?A = "toy_args 1 10" and ?st = "main_init toy_world"
  let ?Y = "toy_solver_deps [5]" and ?s = "init_training toy_loaded toy_world"
  have ml: "model_loss toy_spec_deps = model_loss_spec" by (simp add: toy_spec_deps_def)
  have l1: "length (concat (drop 1 (forward_train toy_spec_deps (training (model ?st))
                (params (model ?st)) ?c))) = length (concat (drop 1 (trg_seq ?c)))"
    by (simp add: toy_spec_deps_def)
  have p1: "\<forall>t\<in>set (concat (drop 1 (trg_seq ?c))). t = target_pad_idx ?A"
    by (simp add: toy_args_def)
  have l2: "length (concat (drop 1 (s_forward ?Y (training (s_model ?s)) (params (s_model ?s))
                (b_src pad_sbatch) (b_trg pad_sbatch)))) = length (concat (drop 1 (b_trg pad_sbatch)))"
    by (simp add: toy_solver_deps_def pad_sbatch_def)
  have p2: "\<forall>t\<in>set (concat (drop 1 (b_trg pad_sbatch))).
      t = vocab_stoi (ld_trg toy_loaded) (pad_token (ld_trg toy_loaded))"
    by (simp add: pad_sbatch_def toy_loaded_def toy_field_def)
  have l0: "length [[0, 0 :: real]] = length [1 :: nat]" by simp
  note T = loss_ignores_padding[of "[[0, 0]]" "[1]" 1 Mean toy_spec_deps ?st ?c ?A
      ?s toy_loaded toy_world ?Y pad_sbatch "toy_solver_args 1"]
  have 1: "fst (train_step toy_spec_deps ?A ?c ?st) = Inr (Fin 0)" using T ml l1 p1 by blast
  have 2: "fst (s_train_step ?Y (toy_solver_args 1) pad_sbatch ?s) = Inr NaN"
    using T l2 p2 by blast
  note F = conjunct1[OF T, THEN mp, OF l0]
  have 3: "CrossEntropyLoss 1 Mean [[0, 0]] [1] = CrossEntropyLoss 1 Mean [] []" using F by simp
  have q1: "concat (drop 1 (trg_seq ?c)) = [target_pad_idx ?A]"
    by (simp add: toy_args_def)
  have q2: "concat (drop 1 (b_trg pad_sbatch)) =
      [vocab_stoi (ld_trg toy_loaded) (pad_token (ld_trg toy_loaded))]"
    by (simp add: pad_sbatch_def toy_loaded_def toy_field_def)
  show ?thesis using l0 ml q1 q2 1 2 3 by blast
qed

text \<open>
  C5 as stated fails for the Solver: the loss of an all-padding batch is NaN, not zero.
\<close>

theorem mean_loss_of_all_padding_is_nan:
  "fst (s_train_step (toy_solver_deps [5]) (toy_solver_args 1) pad_sbatch
          (init_training toy_loaded toy_world)) = Inr NaN \<and>
   fst (s_train_step (toy_solver_deps [5]) (toy_solver_args 1) pad_sbatch
          (init_training toy_loaded toy_world)) \<noteq> Inr (Fin 0)"
  by (simp add: toy_solver_defs pad_sbatch_def)

section \<open>Inference\<close>

text \<open>
  C2 does not hold of \<open>Solver.translate\<close>: whatever follows the first batch of the test
  iterator has no effect on the output. On a test set of two examples in two batches
  the file written holds one line.
\<close>

theorem translate_stops_after_first_batch:
  "translate Y st (src # rest) = translate Y st [src] \<and>
   translate (toy_solver_deps [5]) toy_trained [[[0]], [[0]]] =
     Inr (''hello hello'' @ [CHR 0x0A])"
proof
  show "translate Y st (src # rest) = translate Y st [src]"
    by (simp add: translate_def split: option.splits)
  show "translate (toy_solver_deps [5]) toy_trained [[[0]], [[0]]] =
     Inr (''hello hello'' @ [CHR 0x0A])"
    by (simp add: translate_def toy_trained_def toy_solver_defs upt_conv_Cons)
qed

end
